theory Spec2Isabelle
  imports Complex_Main
begin

section \<open>Python values\<close>

text \<open>
  A Python \<open>str\<close> is a sequence of Unicode code points, so it is modelled as a list of
  natural numbers (\<open>char\<close> has only 256 values, too few for U+0301).  \<open>ustr\<close> turns an
  ASCII literal into such a list.
\<close>

type_synonym pystr = "nat list"

definition ustr :: "string \<Rightarrow> pystr" where
  "ustr s = map of_char s"

text \<open>Exceptions are values.  The first three are raised by the repository's own code,
  the others by the Python operations it calls.\<close>

datatype error =
    MetadataRetrievalError
  | AnytypeAPIError
  | RuntimeError
  | TypeError
  | ValueError
  | AttributeError
  | KeyError
  | IndexError
  | EOFError

text \<open>A decoded JSON value (\<open>object\<close> in the source's type annotations).  A \<open>dict\<close> is
  an association list read with \<open>map_of\<close>.  A JSON number with a fraction or an exponent
  is a finite double, that is a rational.\<close>

datatype json =
    JNull
  | JBool bool
  | JInt int
  | JFloat rat
  | JStr pystr
  | JList "json list"
  | JObj "(pystr \<times> json) list"

type_synonym jdict = "(pystr \<times> json) list"

text \<open>\<open>d.get(k, default)\<close> and \<open>d.get(k)\<close> (whose default is \<open>None\<close>).\<close>

definition dict_get_default :: "jdict \<Rightarrow> pystr \<Rightarrow> json \<Rightarrow> json" where
  "dict_get_default d k dflt = (case map_of d k of None \<Rightarrow> dflt | Some v \<Rightarrow> v)"

definition dict_get :: "jdict \<Rightarrow> pystr \<Rightarrow> json" where
  "dict_get d k = dict_get_default d k JNull"

text \<open>Truth value testing, as \<open>if x:\<close>, \<open>x or y\<close> and \<open>x and y\<close> apply it.\<close>

fun truthy :: "json \<Rightarrow> bool" where
  "truthy JNull = False"
| "truthy (JBool b) = b"
| "truthy (JInt i) = (i \<noteq> 0)"
| "truthy (JFloat q) = (q \<noteq> 0)"
| "truthy (JStr s) = (s \<noteq> [])"
| "truthy (JList xs) = (xs \<noteq> [])"
| "truthy (JObj d) = (d \<noteq> [])"

text \<open>
  What the source takes from the Python runtime and its Unicode database rather than from
  the repository: these are parameters of the model.
  \<^item> \<open>normalize_NFD\<close> is \<open>unicodedata.normalize("NFD", _)\<close>;
  \<^item> \<open>category_Mn c\<close> is \<open>unicodedata.category(c) == "Mn"\<close>;
  \<^item> \<open>unicode_lower s i\<close> is what \<open>s.lower()\<close> puts for the non-ASCII character at
    index \<open>i\<close> of \<open>s\<close> (it may be several characters, and depends on the context for the
    Greek sigma);
  \<^item> \<open>unicode_isspace c\<close> is \<open>c.isspace()\<close> for a non-ASCII character;
  \<^item> \<open>int_of_str_other\<close> is \<open>int(s)\<close> for a string that is not a plain optionally
    signed run of ASCII digits (underscores, other Unicode digits, or a \<open>ValueError\<close>);
  \<^item> \<open>repr_other\<close> is \<open>str(v)\<close> for a float, a list or a dict;
  \<^item> \<open>set_iter xs\<close> is the order in which a \<open>set\<close> built by adding the elements
    \<open>xs\<close> in this order is iterated.
\<close>

record runtime =
  normalize_NFD :: "pystr \<Rightarrow> pystr"
  category_Mn :: "nat \<Rightarrow> bool"
  unicode_lower :: "pystr \<Rightarrow> nat \<Rightarrow> pystr"
  unicode_isspace :: "nat \<Rightarrow> bool"
  int_of_str_other :: "pystr \<Rightarrow> error + int"
  repr_other :: "json \<Rightarrow> pystr"
  set_iter :: "pystr list \<Rightarrow> pystr list"

text \<open>Two facts of the Unicode character database about ASCII: an ASCII-only string is
  its own canonical decomposition, and no ASCII character is a nonspacing mark.\<close>

definition unicode_ascii_facts :: "runtime \<Rightarrow> bool" where
  "unicode_ascii_facts rt \<longleftrightarrow>
     (\<forall>s. (\<forall>c\<in>set s. c < 128) \<longrightarrow> normalize_NFD rt s = s) \<and>
     (\<forall>c<128. \<not> category_Mn rt c)"

text \<open>\<open>str(i)\<close> for an integer: the decimal digits, most significant first, after a minus
  sign for a negative number.  (CPython's configurable cap on the number of digits of such a
  conversion is left out.)\<close>

fun digits_of :: "nat \<Rightarrow> pystr" where
  "digits_of n = (if n < 10 then [48 + n] else digits_of (n div 10) @ [48 + n mod 10])"

declare digits_of.simps [simp del]

definition str_int :: "int \<Rightarrow> pystr" where
  "str_int i = (if i < 0 then 45 # digits_of (nat (- i)) else digits_of (nat i))"

text \<open>The character class \<open>[A-Za-z0-9]\<close> of the two regular expressions.\<close>

definition is_alnum :: "nat \<Rightarrow> bool" where
  "is_alnum c \<longleftrightarrow> (65 \<le> c \<and> c \<le> 90) \<or> (97 \<le> c \<and> c \<le> 122) \<or> (48 \<le> c \<and> c \<le> 57)"

text \<open>\<open>re.search(r"[A-Za-z0-9]+", s)\<close>: the leftmost match, extended greedily; \<open>None\<close>
  when no position matches.  The result is \<open>match.group(0)\<close>.\<close>

definition re_search_alnum :: "pystr \<Rightarrow> pystr option" where
  "re_search_alnum s =
     (case dropWhile (\<lambda>c. \<not> is_alnum c) s of
        [] \<Rightarrow> None
      | c # cs \<Rightarrow> Some (takeWhile is_alnum (c # cs)))"

text \<open>\<open>re.sub(r"[^A-Za-z0-9]+", "", s)\<close>: scanning from the left, a character outside the
  class starts a match that greedily takes the whole run of such characters and is replaced
  by the empty string; a character of the class is copied.\<close>

function re_sub_non_alnum :: "pystr \<Rightarrow> pystr" where
  "re_sub_non_alnum [] = []"
| "re_sub_non_alnum (c # cs) =
     (if is_alnum c then c # re_sub_non_alnum cs
      else re_sub_non_alnum (dropWhile (\<lambda>x. \<not> is_alnum x) cs))"
  by pat_completeness auto
termination
  by (relation "measure length") (auto simp: less_Suc_eq_le length_dropWhile_le)

section \<open>The record model (models.py)\<close>

record Author =
  family :: pystr
  given :: "pystr option"
  orcid :: "pystr option"

definition display_name :: "Author \<Rightarrow> pystr" where
  "display_name a =
     (case given a of
        None \<Rightarrow> family a
      | Some g \<Rightarrow> if g \<noteq> [] then family a @ ustr '', '' @ g else family a)"

definition family_ascii :: "runtime \<Rightarrow> Author \<Rightarrow> pystr" where
  "family_ascii rt a =
     (let normalized = normalize_NFD rt (family a);
          stripped = filter (\<lambda>ch. \<not> category_Mn rt ch) normalized;
          ascii_name = filter (\<lambda>ch. ch < 128) stripped
      in if ascii_name \<noteq> [] then ascii_name else family a)"

record BibliographicRecord =
  doi :: pystr
  title :: pystr
  entry_type :: pystr
  year :: int
  authors :: "Author list"
  journal :: "pystr option"
  short_journal :: "pystr option"
  publisher :: "pystr option"
  raw :: jdict

definition first_author :: "BibliographicRecord \<Rightarrow> Author option" where
  "first_author r = (case authors r of [] \<Rightarrow> None | a # _ \<Rightarrow> Some a)"

text \<open>\<open>sep.join(parts)\<close>.\<close>

fun str_join :: "pystr \<Rightarrow> pystr list \<Rightarrow> pystr" where
  "str_join sep [] = []"
| "str_join sep [p] = p"
| "str_join sep (p # q # ps) = p @ sep @ str_join sep (q # ps)"

definition formatted_authors :: "BibliographicRecord \<Rightarrow> pystr" where
  "formatted_authors r = str_join (ustr '' and '') (map display_name (authors r))"

definition title_first_word :: "pystr \<Rightarrow> pystr" where
  "title_first_word t = (case re_search_alnum t of Some m \<Rightarrow> m | None \<Rightarrow> ustr ''Title'')"

definition citation_key :: "runtime \<Rightarrow> BibliographicRecord \<Rightarrow> pystr" where
  "citation_key rt r =
     (let last_name = (case first_author r of Some a \<Rightarrow> family_ascii rt a
                       | None \<Rightarrow> ustr ''unknown'');
          year_str = str_int (year r)
      in re_sub_non_alnum (last_name @ year_str @ title_first_word (title r)))"

section \<open>Strings and dictionaries of the services\<close>

text \<open>\<open>s.rstrip(chars)\<close>: every trailing character that is one of \<open>chars\<close> is removed.\<close>

definition str_rstrip :: "pystr \<Rightarrow> pystr \<Rightarrow> pystr" where
  "str_rstrip chars s = rev (dropWhile (\<lambda>c. c \<in> set chars) (rev s))"

text \<open>\<open>s.lower()\<close>: an ASCII capital becomes its small letter, every other ASCII
  character stays, a non-ASCII character is lower-cased by the Unicode database.\<close>

definition ascii_lower :: "nat \<Rightarrow> nat" where
  "ascii_lower c = (if 65 \<le> c \<and> c \<le> 90 then c + 32 else c)"

definition str_lower :: "runtime \<Rightarrow> pystr \<Rightarrow> pystr" where
  "str_lower rt s =
     concat (map (\<lambda>i. if s ! i < 128 then [ascii_lower (s ! i)] else unicode_lower rt s i)
                 [0..<length s])"

text \<open>\<open>s.strip()\<close> removes leading and trailing whitespace (\<open>str.isspace\<close>): in ASCII
  the characters 9 to 13 and 28 to 32.\<close>

definition is_space :: "runtime \<Rightarrow> nat \<Rightarrow> bool" where
  "is_space rt c =
     (if c < 128 then (9 \<le> c \<and> c \<le> 13) \<or> (28 \<le> c \<and> c \<le> 32) else unicode_isspace rt c)"

definition str_strip :: "runtime \<Rightarrow> pystr \<Rightarrow> pystr" where
  "str_strip rt s = rev (dropWhile (is_space rt) (rev (dropWhile (is_space rt) s)))"

text \<open>\<open>s.split(sep)\<close> cuts at every occurrence of \<open>sep\<close>, found from the left without
  overlap; an empty separator raises \<open>ValueError\<close>.  \<open>str_split_from sep cur rest\<close> is
  the scan, \<open>cur\<close> being the part collected since the last cut.\<close>

function str_split_from :: "pystr \<Rightarrow> pystr \<Rightarrow> pystr \<Rightarrow> pystr list" where
  "str_split_from sep cur [] = [cur]"
| "str_split_from sep cur (c # cs) =
     (if sep \<noteq> [] \<and> take (length sep) (c # cs) = sep
      then cur # str_split_from sep [] (drop (length sep - 1) cs)
      else str_split_from sep (cur @ [c]) cs)"
  by pat_completeness auto
termination
  by (relation "measure (\<lambda>(sep, cur, rest). length rest)") auto

definition str_split :: "pystr \<Rightarrow> pystr \<Rightarrow> error + pystr list" where
  "str_split s sep = (if sep = [] then Inl ValueError else Inr (str_split_from sep [] s))"

text \<open>\<open>s.replace(old, new)\<close> for a non-empty \<open>old\<close>: every occurrence, found from the
  left without overlap, is replaced.\<close>

function str_replace :: "pystr \<Rightarrow> pystr \<Rightarrow> pystr \<Rightarrow> pystr" where
  "str_replace old new [] = []"
| "str_replace old new (c # cs) =
     (if old \<noteq> [] \<and> take (length old) (c # cs) = old
      then new @ str_replace old new (drop (length old - 1) cs)
      else c # str_replace old new cs)"
  by pat_completeness auto
termination
  by (relation "measure (\<lambda>(old, new, rest). length rest)") auto

text \<open>The value of a run of decimal digits, and \<open>int(s)\<close> for a string: surrounding
  whitespace is dropped, one sign is allowed, and a plain run of ASCII digits has its
  decimal value; every other string is left to the runtime.\<close>

definition decimal_value :: "pystr \<Rightarrow> nat" where
  "decimal_value ds = foldl (\<lambda>acc d. 10 * acc + (d - 48)) 0 ds"

definition is_digit :: "nat \<Rightarrow> bool" where
  "is_digit c \<longleftrightarrow> 48 \<le> c \<and> c \<le> 57"

definition int_of_str :: "runtime \<Rightarrow> pystr \<Rightarrow> error + int" where
  "int_of_str rt s =
     (let t = str_strip rt s;
          neg = (case t of [] \<Rightarrow> False | c # _ \<Rightarrow> c = 45);
          ds = (case t of [] \<Rightarrow> [] | c # cs \<Rightarrow> if c = 45 \<or> c = 43 then cs else t)
      in if ds \<noteq> [] \<and> list_all is_digit ds
         then Inr (if neg then - int (decimal_value ds) else int (decimal_value ds))
         else int_of_str_other rt s)"

text \<open>\<open>int(v)\<close> and \<open>str(v)\<close> for a JSON value.  A float is truncated towards zero.\<close>

definition py_int :: "runtime \<Rightarrow> json \<Rightarrow> error + int" where
  "py_int rt v =
     (case v of
        JInt i \<Rightarrow> Inr i
      | JBool b \<Rightarrow> Inr (if b then 1 else 0)
      | JFloat q \<Rightarrow> Inr (if 0 \<le> q then \<lfloor>q\<rfloor> else \<lceil>q\<rceil>)
      | JStr s \<Rightarrow> int_of_str rt s
      | _ \<Rightarrow> Inl TypeError)"

definition py_str :: "runtime \<Rightarrow> json \<Rightarrow> pystr" where
  "py_str rt v =
     (case v of
        JNull \<Rightarrow> ustr ''None''
      | JBool b \<Rightarrow> (if b then ustr ''True'' else ustr ''False'')
      | JInt i \<Rightarrow> str_int i
      | JStr s \<Rightarrow> s
      | _ \<Rightarrow> repr_other rt v)"

text \<open>\<open>x[0]\<close> for a JSON value.  The keys of a JSON object are strings, so the key \<open>0\<close>
  is never one of them.\<close>

definition getitem0 :: "json \<Rightarrow> error + json" where
  "getitem0 x =
     (case x of
        JList ys \<Rightarrow> (case ys of [] \<Rightarrow> Inl IndexError | y # _ \<Rightarrow> Inr y)
      | JStr s \<Rightarrow> (case s of [] \<Rightarrow> Inl IndexError | c # _ \<Rightarrow> Inr (JStr [c]))
      | JObj d \<Rightarrow> Inl KeyError
      | _ \<Rightarrow> Inl TypeError)"

text \<open>\<open>d[k] = v\<close> on a dictionary that keeps insertion order: a key that is already there
  keeps its place, a new key goes to the end.\<close>

fun dict_set :: "('k \<times> 'v) list \<Rightarrow> 'k \<Rightarrow> 'v \<Rightarrow> ('k \<times> 'v) list" where
  "dict_set [] k v = [(k, v)]"
| "dict_set ((k', v') # d) k v =
     (if k' = k then (k, v) # d else (k', v') # dict_set d k v)"

section \<open>The bibliography entry (services/metadata.py)\<close>

text \<open>\<open>bibtex_fields\<close> is the dictionary \<open>fields\<close> of \<open>generate_bibtex\<close>, \<open>bibtex_lines\<close>
  the list \<open>lines\<close> when the function joins it.\<close>

definition bibtex_fields :: "BibliographicRecord \<Rightarrow> (pystr \<times> pystr) list" where
  "bibtex_fields r =
     (let title_field = ustr ''{{ '' @ title r @ ustr '' }}'';
          fields = [(ustr ''title'', title_field),
                    (ustr ''author'', formatted_authors r),
                    (ustr ''year'', str_int (year r)),
                    (ustr ''doi'', doi r)];
          fields = (case journal r of
                      None \<Rightarrow> fields
                    | Some j \<Rightarrow> if j \<noteq> [] then dict_set fields (ustr ''journal'') j
                               else fields);
          fields = (case publisher r of
                      None \<Rightarrow> fields
                    | Some p \<Rightarrow> if p \<noteq> [] \<and> entry_type r = ustr ''book''
                               then dict_set fields (ustr ''publisher'') p else fields)
      in fields)"

definition field_line :: "pystr \<times> pystr \<Rightarrow> pystr" where
  "field_line kv = ustr ''  '' @ fst kv @ ustr '' = {'' @ snd kv @ ustr ''},''"

definition bibtex_lines :: "runtime \<Rightarrow> BibliographicRecord \<Rightarrow> pystr list" where
  "bibtex_lines rt r =
     (let lines = [ustr ''@'' @ entry_type r @ ustr ''{'' @ citation_key rt r @ ustr '',''];
          lines = lines @ map field_line (filter (\<lambda>kv. snd kv \<noteq> []) (bibtex_fields r));
          lines = (if length lines > 1
                   then lines[length lines - 1 := str_rstrip (ustr '','') (last lines)]
                   else lines);
          lines = lines @ [ustr ''}'']
      in lines)"

definition generate_bibtex :: "runtime \<Rightarrow> BibliographicRecord \<Rightarrow> pystr" where
  "generate_bibtex rt r = str_join [10] (bibtex_lines rt r)"

text \<open>\<open>_extract_year\<close>: the loop over the three keys, then the final \<open>raise\<close>.\<close>

fun extract_year_from :: "runtime \<Rightarrow> jdict \<Rightarrow> pystr list \<Rightarrow> error + int" where
  "extract_year_from rt message [] = Inl MetadataRetrievalError"
| "extract_year_from rt message (key # keys) =
     (case dict_get_default message key (JObj []) of
        JObj d \<Rightarrow>
          (case dict_get d (ustr ''date-parts'') of
             JList (p # ps) \<Rightarrow>
               if truthy p
               then (case getitem0 p of Inl e \<Rightarrow> Inl e | Inr y \<Rightarrow> py_int rt y)
               else extract_year_from rt message keys
           | _ \<Rightarrow> extract_year_from rt message keys)
      | _ \<Rightarrow> Inl AttributeError)"

definition extract_year :: "runtime \<Rightarrow> jdict \<Rightarrow> error + int" where
  "extract_year rt message =
     extract_year_from rt message
       [ustr ''published-print'', ustr ''published-online'', ustr ''issued'']"

section \<open>The remote store and the operator (services/anytype.py)\<close>

record Settings =
  anytype_base_url :: pystr
  anytype_token :: pystr
  anytype_space_id :: pystr
  anytype_object_type_article :: pystr
  anytype_object_type_book :: pystr
  anytype_field_doi :: pystr
  anytype_field_year :: pystr
  anytype_field_authors :: pystr
  anytype_field_journal :: pystr
  anytype_field_short_journal :: pystr
  anytype_field_bibtex :: pystr
  anytype_author_separator :: pystr
  anytype_file_relation_key :: pystr

text \<open>
  The HTTP transport is outside the model.  A method of \<open>AnytypeClient\<close> is given by what
  it returns or raises, as a function of the calls made so far and of its arguments; each
  call is appended to the trace.  The operator is the list of the answers \<open>prompt_func\<close>
  will give, in order; asking when none is left raises (\<open>EOFError\<close> stands for what the
  prompt function raises then).  Printing and logging are not modelled.
\<close>

datatype call =
    CreateObject pystr pystr jdict
  | UpdateObject pystr jdict
  | SearchByProperty pystr pystr nat
  | SearchByText pystr nat
  | UploadFile pystr
  | AttachFileToObject pystr pystr

record AnytypeClient =
  create_object :: "call list \<Rightarrow> pystr \<Rightarrow> pystr \<Rightarrow> jdict \<Rightarrow> error + jdict"
  update_object :: "call list \<Rightarrow> pystr \<Rightarrow> jdict \<Rightarrow> error + jdict"
  search_by_property :: "call list \<Rightarrow> pystr \<Rightarrow> pystr \<Rightarrow> nat \<Rightarrow> error + jdict list"
  search_by_text :: "call list \<Rightarrow> pystr \<Rightarrow> nat \<Rightarrow> error + jdict list"
  upload_file :: "call list \<Rightarrow> pystr \<Rightarrow> error + pystr"
  attach_file_to_object :: "call list \<Rightarrow> pystr \<Rightarrow> pystr \<Rightarrow> error + unit"

record world =
  trace :: "call list"
  answers :: "pystr list"

type_synonym 'a io = "world \<Rightarrow> (error + 'a) \<times> world"

definition io_return :: "'a \<Rightarrow> 'a io" where
  "io_return x = (\<lambda>w. (Inr x, w))"

definition io_raise :: "error \<Rightarrow> 'a io" where
  "io_raise e = (\<lambda>w. (Inl e, w))"

definition io_lift :: "error + 'a \<Rightarrow> 'a io" where
  "io_lift v = (\<lambda>w. (v, w))"

definition io_bind :: "'a io \<Rightarrow> ('a \<Rightarrow> 'b io) \<Rightarrow> 'b io" where
  "io_bind m f = (\<lambda>w. case m w of (Inl e, w') \<Rightarrow> (Inl e, w') | (Inr x, w') \<Rightarrow> f x w')"

definition do_create_object :: "AnytypeClient \<Rightarrow> pystr \<Rightarrow> pystr \<Rightarrow> jdict \<Rightarrow> jdict io" where
  "do_create_object cl object_type name flds =
     (\<lambda>w. (create_object cl (trace w) object_type name flds,
           w\<lparr>trace := trace w @ [CreateObject object_type name flds]\<rparr>))"

definition do_update_object :: "AnytypeClient \<Rightarrow> pystr \<Rightarrow> jdict \<Rightarrow> jdict io" where
  "do_update_object cl oid flds =
     (\<lambda>w. (update_object cl (trace w) oid flds,
           w\<lparr>trace := trace w @ [UpdateObject oid flds]\<rparr>))"

definition do_search_by_property :: "AnytypeClient \<Rightarrow> pystr \<Rightarrow> pystr \<Rightarrow> nat \<Rightarrow> jdict list io" where
  "do_search_by_property cl property_key val limit =
     (\<lambda>w. (search_by_property cl (trace w) property_key val limit,
           w\<lparr>trace := trace w @ [SearchByProperty property_key val limit]\<rparr>))"

definition do_search_by_text :: "AnytypeClient \<Rightarrow> pystr \<Rightarrow> nat \<Rightarrow> jdict list io" where
  "do_search_by_text cl query limit =
     (\<lambda>w. (search_by_text cl (trace w) query limit,
           w\<lparr>trace := trace w @ [SearchByText query limit]\<rparr>))"

definition do_upload_file :: "AnytypeClient \<Rightarrow> pystr \<Rightarrow> pystr io" where
  "do_upload_file cl pdf_path =
     (\<lambda>w. (upload_file cl (trace w) pdf_path, w\<lparr>trace := trace w @ [UploadFile pdf_path]\<rparr>))"

definition do_attach_file_to_object :: "AnytypeClient \<Rightarrow> pystr \<Rightarrow> pystr \<Rightarrow> unit io" where
  "do_attach_file_to_object cl oid file_id =
     (\<lambda>w. (attach_file_to_object cl (trace w) oid file_id,
           w\<lparr>trace := trace w @ [AttachFileToObject oid file_id]\<rparr>))"

record AnytypePublisher =
  client :: AnytypeClient
  settings :: Settings

definition build_fields :: "Settings \<Rightarrow> BibliographicRecord \<Rightarrow> pystr \<Rightarrow> jdict" where
  "build_fields st r bibtex_entry =
     (let fields = dict_set [] (anytype_field_doi st) (JStr (doi r));
          fields = dict_set fields (anytype_field_year st) (JInt (year r));
          fields = dict_set fields (anytype_field_authors st)
                     (JStr (str_replace (ustr '' and '') (anytype_author_separator st)
                              (formatted_authors r)));
          fields = dict_set fields (anytype_field_bibtex st) (JStr bibtex_entry);
          fields = (case journal r of
                      None \<Rightarrow> fields
                    | Some j \<Rightarrow> if j \<noteq> [] then dict_set fields (anytype_field_journal st) (JStr j)
                               else fields);
          fields = (case short_journal r of
                      None \<Rightarrow> fields
                    | Some j \<Rightarrow> if j \<noteq> [] \<and> anytype_field_short_journal st \<noteq> []
                               then dict_set fields (anytype_field_short_journal st) (JStr j)
                               else fields)
      in filter (\<lambda>kv. snd kv \<noteq> JNull) fields)"

definition create_reference :: "AnytypePublisher \<Rightarrow> BibliographicRecord \<Rightarrow> pystr \<Rightarrow> jdict io" where
  "create_reference pub r bibtex_entry =
     (let fields = build_fields (settings pub) r bibtex_entry;
          object_type = (if entry_type r = ustr ''book''
                         then anytype_object_type_book (settings pub)
                         else anytype_object_type_article (settings pub))
      in do_create_object (client pub) object_type (title r) fields)"

definition update_reference ::
  "AnytypePublisher \<Rightarrow> pystr \<Rightarrow> BibliographicRecord \<Rightarrow> pystr \<Rightarrow> jdict io" where
  "update_reference pub oid r bibtex_entry =
     do_update_object (client pub) oid (build_fields (settings pub) r bibtex_entry)"

definition attach_pdf :: "AnytypePublisher \<Rightarrow> pystr \<Rightarrow> pystr \<Rightarrow> unit io" where
  "attach_pdf pub oid pdf_path =
     io_bind (do_upload_file (client pub) pdf_path)
       (\<lambda>file_id. do_attach_file_to_object (client pub) oid file_id)"

section \<open>The duplicate matcher (services/dedup.py)\<close>

record DuplicateCandidate =
  object_id :: pystr
  cand_title :: "pystr option"
  cand_doi :: "pystr option"
  cand_authors :: "pystr list"

text \<open>The body of the loop of \<open>_extend_candidates\<close> after \<open>seen.add(object_id)\<close>: the
  candidate built from one raw object.  Only \<open>split\<close> can raise in it.\<close>

definition candidate_of ::
  "runtime \<Rightarrow> Settings \<Rightarrow> pystr \<Rightarrow> jdict \<Rightarrow> error + DuplicateCandidate" where
  "candidate_of rt st oid obj =
     (let fields = dict_get_default obj (ustr ''fields'') (JObj []);
          title_val = (if truthy (dict_get obj (ustr ''name''))
                       then dict_get obj (ustr ''name'') else dict_get obj (ustr ''title''));
          doi_val = (case fields of JObj d \<Rightarrow> dict_get d (anytype_field_doi st)
                     | _ \<Rightarrow> JNull);
          authors_field = (case fields of JObj d \<Rightarrow> dict_get d (anytype_field_authors st)
                           | _ \<Rightarrow> JList []);
          parsed = (case authors_field of
                      JStr s \<Rightarrow> map_sum id (map (str_strip rt))
                                 (str_split s (anytype_author_separator st))
                    | JList parts \<Rightarrow> Inr (map (py_str rt) parts)
                    | _ \<Rightarrow> Inr [])
      in case parsed of
           Inl e \<Rightarrow> Inl e
         | Inr author_names \<Rightarrow>
             Inr \<lparr> object_id = oid,
                   cand_title = (if truthy title_val then Some (py_str rt title_val) else None),
                   cand_doi = (if truthy doi_val then Some (py_str rt doi_val) else None),
                   cand_authors = author_names \<rparr>)"

fun extend_candidates ::
  "runtime \<Rightarrow> Settings \<Rightarrow> DuplicateCandidate list \<times> pystr set \<Rightarrow> jdict list
     \<Rightarrow> error + DuplicateCandidate list \<times> pystr set" where
  "extend_candidates rt st (target, seen) [] = Inr (target, seen)"
| "extend_candidates rt st (target, seen) (obj # raw_objects) =
     (let oid = py_str rt (dict_get obj (ustr ''id''))
      in if oid \<in> seen then extend_candidates rt st (target, seen) raw_objects
         else (case candidate_of rt st oid obj of
                 Inl e \<Rightarrow> Inl e
               | Inr c \<Rightarrow> extend_candidates rt st (target @ [c], insert oid seen) raw_objects))"

text \<open>The three blocks of \<open>find_duplicates\<close>, each from the candidates and the \<open>seen\<close>
  set so far to the next ones, and the function itself.\<close>

definition doi_tier ::
  "runtime \<Rightarrow> Settings \<Rightarrow> AnytypeClient \<Rightarrow> BibliographicRecord
     \<Rightarrow> DuplicateCandidate list \<times> pystr set \<Rightarrow> (DuplicateCandidate list \<times> pystr set) io" where
  "doi_tier rt st cl r cs =
     (if doi r \<noteq> []
      then io_bind (do_search_by_property cl (anytype_field_doi st) (doi r) 5)
             (\<lambda>doi_matches. io_lift (extend_candidates rt st cs doi_matches))
      else io_return cs)"

definition author_last_names :: "runtime \<Rightarrow> BibliographicRecord \<Rightarrow> pystr list" where
  "author_last_names rt r = map (\<lambda>author. str_lower rt (family_ascii rt author)) (authors r)"

definition author_tier ::
  "runtime \<Rightarrow> Settings \<Rightarrow> AnytypeClient \<Rightarrow> BibliographicRecord
     \<Rightarrow> DuplicateCandidate list \<times> pystr set \<Rightarrow> (DuplicateCandidate list \<times> pystr set) io" where
  "author_tier rt st cl r cs =
     (if set (author_last_names rt r) \<noteq> {}
      then io_bind (do_search_by_text cl
                      (str_join (ustr '' '') (set_iter rt (author_last_names rt r))) 5)
             (\<lambda>author_matches. io_lift (extend_candidates rt st cs author_matches))
      else io_return cs)"

definition title_tier ::
  "runtime \<Rightarrow> Settings \<Rightarrow> AnytypeClient \<Rightarrow> BibliographicRecord
     \<Rightarrow> DuplicateCandidate list \<times> pystr set \<Rightarrow> (DuplicateCandidate list \<times> pystr set) io" where
  "title_tier rt st cl r cs =
     (if fst cs = [] \<and> title r \<noteq> []
      then io_bind (do_search_by_text cl (title r) 3)
             (\<lambda>title_matches. io_lift (extend_candidates rt st cs title_matches))
      else io_return cs)"

definition find_duplicates ::
  "runtime \<Rightarrow> Settings \<Rightarrow> AnytypeClient \<Rightarrow> BibliographicRecord \<Rightarrow> DuplicateCandidate list io" where
  "find_duplicates rt st cl r =
     io_bind (doi_tier rt st cl r ([], {}))
       (\<lambda>cs1. io_bind (author_tier rt st cl r cs1)
         (\<lambda>cs2. io_bind (title_tier rt st cl r cs2)
           (\<lambda>cs3. io_return (fst cs3))))"

datatype DuplicateDetector =
    NoopDuplicateDetector
  | AnytypeDuplicateDetector AnytypeClient Settings

definition detect :: "runtime \<Rightarrow> DuplicateDetector \<Rightarrow> BibliographicRecord \<Rightarrow> DuplicateCandidate list io" where
  "detect rt det r =
     (case det of
        NoopDuplicateDetector \<Rightarrow> io_return []
      | AnytypeDuplicateDetector cl st \<Rightarrow> find_duplicates rt st cl r)"

section \<open>The resolution coordinator (services/metadata.py)\<close>

record DOIIngestionService =
  service_settings :: Settings
  duplicate_detector :: "DuplicateDetector option"
  service_publisher :: "AnytypePublisher option"

text \<open>\<open>prompt_func(text)\<close>: the next answer of the operator.\<close>

definition prompt_func :: "pystr io" where
  "prompt_func =
     (\<lambda>w. case answers w of
             [] \<Rightarrow> (Inl EOFError, w)
           | x # xs \<Rightarrow> (Inr x, w\<lparr>answers := xs\<rparr>))"

text \<open>The \<open>while True\<close> loop of \<open>_prompt_duplicate_action\<close>, on the answers still to come:
  it returns the action, the selected candidate and the answers it has not read.  Each turn
  reads at least one answer, so the loop ends on every finite list of answers.\<close>

fun prompt_loop ::
  "runtime \<Rightarrow> DuplicateCandidate list \<Rightarrow> pystr list
     \<Rightarrow> (error + pystr \<times> DuplicateCandidate option) \<times> pystr list" where
  "prompt_loop rt candidates [] = (Inl EOFError, [])"
| "prompt_loop rt candidates (x # xs) =
     (let choice = str_lower rt (str_strip rt x)
      in if choice = ustr ''a'' \<or> choice = ustr ''abort''
         then (Inr (ustr ''abort'', None), xs)
         else if choice = ustr ''c'' \<or> choice = ustr ''create''
         then (Inr (ustr ''create'', None), xs)
         else if choice = ustr ''u'' \<or> choice = ustr ''use''
         then (case xs of
                 [] \<Rightarrow> (Inl EOFError, [])
               | y # ys \<Rightarrow>
                   (case int_of_str rt (str_strip rt y) of
                      Inl e \<Rightarrow> if e = ValueError then prompt_loop rt candidates ys
                               else (Inl e, ys)
                    | Inr index \<Rightarrow>
                        if 1 \<le> index \<and> index \<le> int (length candidates)
                        then (Inr (ustr ''use_existing'',
                                   Some (candidates ! nat (index - 1))), ys)
                        else prompt_loop rt candidates ys))
         else prompt_loop rt candidates xs)"

definition prompt_duplicate_action ::
  "runtime \<Rightarrow> DuplicateCandidate list \<Rightarrow> (pystr \<times> DuplicateCandidate option) io" where
  "prompt_duplicate_action rt candidates =
     (\<lambda>w. case prompt_loop rt candidates (answers w) of
             (res, rest) \<Rightarrow> (res, w\<lparr>answers := rest\<rparr>))"

definition extract_object_id :: "runtime \<Rightarrow> jdict \<Rightarrow> error + pystr" where
  "extract_object_id rt payload =
     (let oid = dict_get payload (ustr ''id'')
      in if \<not> truthy oid then Inl AnytypeAPIError else Inr (py_str rt oid))"

definition update_existing ::
  "DOIIngestionService \<Rightarrow> DuplicateCandidate \<Rightarrow> BibliographicRecord \<Rightarrow> pystr
     \<Rightarrow> pystr option \<Rightarrow> unit io" where
  "update_existing svc candidate r bibtex_entry pdf =
     (case service_publisher svc of
        None \<Rightarrow> io_raise RuntimeError
      | Some pub \<Rightarrow>
          io_bind (update_reference pub (object_id candidate) r bibtex_entry)
            (\<lambda>_. case pdf of
                    None \<Rightarrow> io_return ()
                  | Some path \<Rightarrow> attach_pdf pub (object_id candidate) path))"

text \<open>The tail of \<open>publish_to_anytype\<close>, from \<open>created = ...\<close> on.\<close>

definition create_new ::
  "runtime \<Rightarrow> AnytypePublisher \<Rightarrow> BibliographicRecord \<Rightarrow> pystr \<Rightarrow> pystr option \<Rightarrow> unit io" where
  "create_new rt pub r bibtex_entry pdf =
     io_bind (create_reference pub r bibtex_entry)
       (\<lambda>created. io_bind (io_lift (extract_object_id rt created))
         (\<lambda>oid. case pdf of
                   None \<Rightarrow> io_return ()
                 | Some path \<Rightarrow> attach_pdf pub oid path))"

definition publish_to_anytype ::
  "runtime \<Rightarrow> DOIIngestionService \<Rightarrow> BibliographicRecord \<Rightarrow> pystr \<Rightarrow> pystr option
     \<Rightarrow> unit io" where
  "publish_to_anytype rt svc r bibtex_entry pdf =
     (case service_publisher svc of
        None \<Rightarrow> io_raise RuntimeError
      | Some pub \<Rightarrow>
          io_bind (detect rt (case duplicate_detector svc of
                                None \<Rightarrow> NoopDuplicateDetector | Some d \<Rightarrow> d) r)
            (\<lambda>candidates.
               if candidates \<noteq> []
               then io_bind (prompt_duplicate_action rt candidates)
                      (\<lambda>(action, selected).
                         if action = ustr ''abort'' then io_return ()
                         else if action = ustr ''use_existing''
                         then (case selected of
                                 Some candidate \<Rightarrow>
                                   update_existing svc candidate r bibtex_entry pdf
                               | None \<Rightarrow> create_new rt pub r bibtex_entry pdf)
                         else create_new rt pub r bibtex_entry pdf)
               else create_new rt pub r bibtex_entry pdf))"

section \<open>The specification's words\<close>

text \<open>The definitions of this section follow the specification, not the code; the theorems
  below compare them with the code's.\<close>

text \<open>"Strip every character that is not \<open>[A-Za-z0-9]\<close>."\<close>

definition keep_alnum :: "pystr \<Rightarrow> pystr" where
  "keep_alnum s = filter is_alnum s"

text \<open>"The first alphanumeric run found in the title": \<open>w\<close> is a non-empty run of
  alphanumeric characters of \<open>t\<close>, nothing before it is alphanumeric, and it cannot be
  extended to the right.\<close>

definition is_first_alnum_run :: "pystr \<Rightarrow> pystr \<Rightarrow> bool" where
  "is_first_alnum_run t w \<longleftrightarrow>
     w \<noteq> [] \<and>
     (\<exists>pre post. t = pre @ w @ post \<and> (\<forall>c\<in>set pre. \<not> is_alnum c) \<and>
        (\<forall>c\<in>set w. is_alnum c) \<and> (post = [] \<or> \<not> is_alnum (hd post)))"

definition first_alnum_run :: "pystr \<Rightarrow> pystr" where
  "first_alnum_run t = takeWhile is_alnum (dropWhile (\<lambda>c. \<not> is_alnum c) t)"

text \<open>"The accent-folded family name": the Unicode-decomposed family name without its
  diacritics (the nonspacing marks) and without its non-ASCII characters, or the family name
  itself when nothing is left.\<close>

definition accent_fold :: "runtime \<Rightarrow> pystr \<Rightarrow> pystr" where
  "accent_fold rt fam =
     (let folded = filter (\<lambda>c. \<not> category_Mn rt c \<and> c < 128) (normalize_NFD rt fam)
      in if folded = [] then fam else folded)"

definition citation_key_spec :: "runtime \<Rightarrow> BibliographicRecord \<Rightarrow> pystr" where
  "citation_key_spec rt r =
     keep_alnum
       ((case authors r of [] \<Rightarrow> ustr ''unknown'' | a # _ \<Rightarrow> accent_fold rt (family a)) @
        str_int (year r) @
        (if \<exists>c\<in>set (title r). is_alnum c then first_alnum_run (title r) else ustr ''Title''))"

text \<open>The six fields of an entry in their fixed order, each with its value when the record
  has one; the present fields are those whose value is there and not empty.  A present
  field is written \<open>key = {value},\<close> on an indented line, the last one without the comma.\<close>

definition entry_slots :: "BibliographicRecord \<Rightarrow> (pystr \<times> pystr option) list" where
  "entry_slots r =
     [(ustr ''title'', Some (ustr ''{{ '' @ title r @ ustr '' }}'')),
      (ustr ''author'', Some (formatted_authors r)),
      (ustr ''year'', Some (str_int (year r))),
      (ustr ''doi'', Some (doi r)),
      (ustr ''journal'', journal r),
      (ustr ''publisher'', if entry_type r = ustr ''book'' then publisher r else None)]"

fun present :: "(pystr \<times> pystr option) list \<Rightarrow> (pystr \<times> pystr) list" where
  "present [] = []"
| "present ((k, None) # slots) = present slots"
| "present ((k, Some s) # slots) = (if s = [] then present slots else (k, s) # present slots)"

definition present_fields :: "BibliographicRecord \<Rightarrow> (pystr \<times> pystr) list" where
  "present_fields r = present (entry_slots r)"

definition spec_field_line :: "bool \<Rightarrow> pystr \<times> pystr \<Rightarrow> pystr" where
  "spec_field_line final kv =
     ustr ''  '' @ fst kv @ ustr '' = {'' @ snd kv @ ustr ''}'' @ (if final then [] else ustr '','')"

definition entry_spec_lines :: "runtime \<Rightarrow> BibliographicRecord \<Rightarrow> pystr list" where
  "entry_spec_lines rt r =
     (let fs = present_fields r
      in [ustr ''@'' @ entry_type r @ ustr ''{'' @ citation_key rt r @ ustr '','']
         @ map (spec_field_line False) (butlast fs)
         @ (if fs = [] then [] else [spec_field_line True (last fs)])
         @ [ustr ''}''])"

text \<open>The optional journal and publisher entries of the dictionary of fields.\<close>

definition journal_part :: "BibliographicRecord \<Rightarrow> (pystr \<times> pystr) list" where
  "journal_part r =
     (case journal r of
        None \<Rightarrow> []
      | Some j \<Rightarrow> if j \<noteq> [] then [(ustr ''journal'', j)] else [])"

definition publisher_part :: "BibliographicRecord \<Rightarrow> (pystr \<times> pystr) list" where
  "publisher_part r =
     (case publisher r of
        None \<Rightarrow> []
      | Some p \<Rightarrow> if p \<noteq> [] \<and> entry_type r = ustr ''book'' then [(ustr ''publisher'', p)]
                 else [])"

text \<open>The identifier \<open>_extend_candidates\<close> reads from a raw object, the state of the
  matcher it keeps (the identifiers of the candidates are distinct and are the \<open>seen\<close>
  set), and the first two tiers of \<open>find_duplicates\<close> run together.\<close>

definition raw_id :: "runtime \<Rightarrow> jdict \<Rightarrow> pystr" where
  "raw_id rt obj = py_str rt (dict_get obj (ustr ''id''))"

definition matcher_inv :: "DuplicateCandidate list \<times> pystr set \<Rightarrow> bool" where
  "matcher_inv cs \<longleftrightarrow> distinct (map object_id (fst cs)) \<and> set (map object_id (fst cs)) = snd cs"


text \<open>The kinds of remote calls, to count them in a trace.\<close>

fun is_create :: "call \<Rightarrow> bool" where
  "is_create (CreateObject t n f) = True"
| "is_create c = False"

fun is_update :: "call \<Rightarrow> bool" where
  "is_update (UpdateObject i f) = True"
| "is_update c = False"

fun is_upload :: "call \<Rightarrow> bool" where
  "is_upload (UploadFile p) = True"
| "is_upload c = False"

fun is_attach :: "call \<Rightarrow> bool" where
  "is_attach (AttachFileToObject i f) = True"
| "is_attach c = False"

fun is_search :: "call \<Rightarrow> bool" where
  "is_search (SearchByProperty k v n) = True"
| "is_search (SearchByText q n) = True"
| "is_search c = False"


text \<open>The decision protocol's rounds that prompt again: an answer that is none of the
  three actions; or the action \<open>use\<close> followed by an index that is not a number or is out
  of range.  \<open>n\<close> is the number of candidates.\<close>

definition choice_of :: "runtime \<Rightarrow> pystr \<Rightarrow> pystr" where
  "choice_of rt x = str_lower rt (str_strip rt x)"

definition is_abort_answer :: "runtime \<Rightarrow> pystr \<Rightarrow> bool" where
  "is_abort_answer rt x \<longleftrightarrow> choice_of rt x = ustr ''a'' \<or> choice_of rt x = ustr ''abort''"

definition reprompt_round :: "runtime \<Rightarrow> nat \<Rightarrow> pystr list \<Rightarrow> bool" where
  "reprompt_round rt n answers_read =
     (case answers_read of
        [x] \<Rightarrow> choice_of rt x \<notin> {ustr ''a'', ustr ''abort'', ustr ''c'', ustr ''create'',
                                 ustr ''u'', ustr ''use''}
      | [x, y] \<Rightarrow>
          (choice_of rt x = ustr ''u'' \<or> choice_of rt x = ustr ''use'') \<and>
          (case int_of_str rt (str_strip rt y) of
             Inl e \<Rightarrow> e = ValueError
           | Inr index \<Rightarrow> \<not> (1 \<le> index \<and> index \<le> int n))
      | _ \<Rightarrow> False)"

text \<open>A computation that asks the operator nothing and adds only searches to the trace.\<close>

definition only_searches :: "'a io \<Rightarrow> bool" where
  "only_searches m \<longleftrightarrow>
     (\<forall>w. answers (snd (m w)) = answers w \<and>
          (\<exists>ss. trace (snd (m w)) = trace w @ ss \<and> list_all is_search ss))"

text \<open>The calls a run adds to the trace.\<close>

definition new_calls :: "world \<Rightarrow> world \<Rightarrow> call list" where
  "new_calls w w' = drop (length (trace w)) (trace w')"

section \<open>Concrete inputs\<close>

text \<open>A fragment of the Unicode database (the canonical decompositions of seven accented
  Latin letters, the combining diacritical marks U+0300 to U+036F as the nonspacing marks),
  and a runtime built on it.\<close>

definition sample_decompose :: "nat \<Rightarrow> pystr" where
  "sample_decompose c =
     (if c = 225 then [97, 769] else if c = 233 then [101, 769]
      else if c = 237 then [105, 769] else if c = 243 then [111, 769]
      else if c = 250 then [117, 769] else if c = 241 then [110, 771]
      else if c = 252 then [117, 776] else [c])"

definition sample_runtime :: runtime where
  "sample_runtime =
     \<lparr> normalize_NFD = (\<lambda>s. concat (map sample_decompose s)),
       category_Mn = (\<lambda>c. 768 \<le> c \<and> c \<le> 879),
       unicode_lower = (\<lambda>s i. [s ! i]),
       unicode_isspace = (\<lambda>c. c = 160),
       int_of_str_other = (\<lambda>s. Inl ValueError),
       repr_other = (\<lambda>v. []),
       set_iter = remdups \<rparr>"

definition garcia :: pystr where
  "garcia = ustr ''Garc'' @ [237] @ ustr ''a''"

text \<open>The record and the settings of the repository's tests.\<close>

definition build_record :: BibliographicRecord where
  "build_record =
     \<lparr> doi = ustr ''10.1000/test'',
       title = ustr ''Understanding Quantum Fields'',
       entry_type = ustr ''article'',
       year = 2024,
       authors = [\<lparr> family = ustr ''Doe'', given = Some (ustr ''Jane''), orcid = None \<rparr>,
                  \<lparr> family = ustr ''Smith'', given = Some (ustr ''John''), orcid = None \<rparr>],
       journal = Some (ustr ''Journal of Testing''),
       short_journal = None,
       publisher = None,
       raw = [] \<rparr>"

definition sample_settings :: Settings where
  "sample_settings =
     \<lparr> anytype_base_url = ustr ''https://api.example'',
       anytype_token = ustr ''token'',
       anytype_space_id = ustr ''space'',
       anytype_object_type_article = ustr ''Article'',
       anytype_object_type_book = ustr ''Book'',
       anytype_field_doi = ustr ''doi'',
       anytype_field_year = ustr ''year'',
       anytype_field_authors = ustr ''authors'',
       anytype_field_journal = ustr ''journal'',
       anytype_field_short_journal = ustr ''short_journal'',
       anytype_field_bibtex = ustr ''bibtex'',
       anytype_author_separator = ustr ''; '',
       anytype_file_relation_key = ustr ''attachments'' \<rparr>"

text \<open>A remote store that holds one object, returned by every search, and accepts every
  call; and a raw search result that has no \<open>id\<close>.\<close>

definition existing_object :: jdict where
  "existing_object =
     [(ustr ''id'', JStr (ustr ''existing'')),
      (ustr ''name'', JStr (ustr ''Existing'')),
      (ustr ''fields'', JObj [(ustr ''doi'', JStr (ustr ''10.1000/test'')),
                              (ustr ''authors'', JStr (ustr ''Doe, Jane; Smith, John''))])]"

definition sample_client :: AnytypeClient where
  "sample_client =
     \<lparr> create_object = (\<lambda>tr ty name flds. Inr [(ustr ''id'', JStr (ustr ''obj123''))]),
       update_object = (\<lambda>tr oid flds. Inr [(ustr ''id'', JStr oid)]),
       search_by_property = (\<lambda>tr k v n. Inr [existing_object]),
       search_by_text = (\<lambda>tr q n. Inr [existing_object]),
       upload_file = (\<lambda>tr p. Inr (ustr ''file1'')),
       attach_file_to_object = (\<lambda>tr oid fid. Inr ()) \<rparr>"

definition sample_service :: DOIIngestionService where
  "sample_service =
     \<lparr> service_settings = sample_settings,
       duplicate_detector = Some (AnytypeDuplicateDetector sample_client sample_settings),
       service_publisher = Some \<lparr> client = sample_client, settings = sample_settings \<rparr> \<rparr>"

definition nameless_object :: jdict where
  "nameless_object = [(ustr ''name'', JStr (ustr ''Untitled''))]"

section \<open>The citation key\<close>

lemma filter_dropWhile_not: "filter P (dropWhile (\<lambda>x. \<not> P x) xs) = filter P xs"
  by (induction xs) auto

lemma re_sub_non_alnum_filter: "re_sub_non_alnum s = filter is_alnum s"
  by (induction s rule: re_sub_non_alnum.induct) (auto simp: filter_dropWhile_not)

lemma digits_of_digits: "c \<in> set (digits_of n) \<Longrightarrow> 48 \<le> c \<and> c \<le> 57"
proof (induction n arbitrary: c rule: digits_of.induct)
  case (1 n)
  show ?case
  proof (cases "n < 10")
    case True
    with "1.prems" show ?thesis by (simp add: digits_of.simps [of n])
  next
    case False
    with "1.prems" have "c \<in> set (digits_of (n div 10)) \<or> c = 48 + n mod 10"
      by (auto simp: digits_of.simps [of n])
    with False "1.IH" show ?thesis by auto
  qed
qed

lemma digits_of_nonempty: "digits_of n \<noteq> []"
  by (subst digits_of.simps) simp

lemma digits_of_alnum: "filter is_alnum (digits_of n) = digits_of n"
  by (rule filter_True) (auto dest: digits_of_digits simp: is_alnum_def)

lemma decimal_value_digits_of: "decimal_value (digits_of n) = n"
proof (induction n rule: digits_of.induct)
  case (1 n)
  show ?case
  proof (cases "n < 10")
    case True
    then show ?thesis by (simp add: digits_of.simps [of n] decimal_value_def)
  next
    case False
    with "1.IH" have "decimal_value (digits_of (n div 10)) = n div 10" by simp
    with False show ?thesis
      by (simp add: digits_of.simps [of n] decimal_value_def)
  qed
qed

lemma first_alnum_run_is_first:
  assumes "\<exists>c\<in>set t. is_alnum c"
  shows "is_first_alnum_run t (first_alnum_run t)"
proof -
  let ?pre = "takeWhile (\<lambda>c. \<not> is_alnum c) t"
  let ?rest = "dropWhile (\<lambda>c. \<not> is_alnum c) t"
  let ?w = "takeWhile is_alnum ?rest"
  let ?post = "dropWhile is_alnum ?rest"
  from assms have rest: "?rest \<noteq> []" by (auto simp: dropWhile_eq_Nil_conv)
  then have "is_alnum (hd ?rest)" using hd_dropWhile [of "\<lambda>c. \<not> is_alnum c" t] by simp
  with rest have w: "?w \<noteq> []" by (cases ?rest) auto
  have split: "t = ?pre @ ?w @ ?post" by simp
  have pre: "\<forall>c\<in>set ?pre. \<not> is_alnum c" by (auto dest: set_takeWhileD)
  have wa: "\<forall>c\<in>set ?w. is_alnum c" by (auto dest: set_takeWhileD)
  have post: "?post = [] \<or> \<not> is_alnum (hd ?post)"
    using hd_dropWhile [of is_alnum ?rest] by auto
  show ?thesis
    unfolding is_first_alnum_run_def first_alnum_run_def
    using w split pre wa post by blast
qed

lemma is_first_alnum_run_unique:
  assumes "is_first_alnum_run t w"
  shows "w = first_alnum_run t"
proof -
  from assms obtain pre post where t: "t = pre @ w @ post" and w: "w \<noteq> []"
    and pre: "\<forall>c\<in>set pre. \<not> is_alnum c" and wa: "\<forall>c\<in>set w. is_alnum c"
    and post: "post = [] \<or> \<not> is_alnum (hd post)"
    unfolding is_first_alnum_run_def by blast
  from w wa have "is_alnum (hd w)" by (cases w) auto
  with pre w have "dropWhile (\<lambda>c. \<not> is_alnum c) t = w @ post"
    unfolding t by (cases w) (auto simp: dropWhile_append3 dropWhile_append)
  moreover from wa post have "takeWhile is_alnum (w @ post) = w"
    by (cases post) (auto simp: takeWhile_append2 takeWhile_tail)
  ultimately show ?thesis by (simp add: first_alnum_run_def)
qed

lemma title_first_word_spec:
  "title_first_word t =
     (if \<exists>c\<in>set t. is_alnum c then first_alnum_run t else ustr ''Title'')"
proof (cases "dropWhile (\<lambda>c. \<not> is_alnum c) t")
  case Nil
  then have none: "\<forall>c\<in>set t. \<not> is_alnum c" by (simp add: dropWhile_eq_Nil_conv)
  have "re_search_alnum t = None" unfolding re_search_alnum_def Nil by simp
  with none show ?thesis by (simp add: title_first_word_def)
next
  case (Cons c cs)
  then have some: "\<exists>c\<in>set t. is_alnum c"
    using dropWhile_eq_Nil_conv [of "\<lambda>c. \<not> is_alnum c" t] by auto
  have "re_search_alnum t = Some (first_alnum_run t)"
    unfolding re_search_alnum_def first_alnum_run_def Cons by simp
  with some show ?thesis by (simp add: title_first_word_def)
qed

lemma family_ascii_accent_fold: "family_ascii rt a = accent_fold rt (family a)"
proof -
  have "filter (\<lambda>ch. ch < 128) (filter (\<lambda>ch. \<not> category_Mn rt ch) s)
      = filter (\<lambda>c. \<not> category_Mn rt c \<and> c < 128) s" for s
    by (induction s) auto
  then show ?thesis by (simp add: family_ascii_def accent_fold_def Let_def)
qed

lemma citation_key_refines: "citation_key rt r = citation_key_spec rt r"
  by (simp add: citation_key_def citation_key_spec_def keep_alnum_def re_sub_non_alnum_filter
      title_first_word_spec first_author_def family_ascii_accent_fold Let_def
      split: list.splits)

lemma accent_fold_garcia:
  assumes "normalize_NFD rt garcia = ustr ''Garci'' @ [769] @ ustr ''a''"
    and "category_Mn rt 769" and "\<forall>c<128. \<not> category_Mn rt c"
  shows "accent_fold rt garcia = ustr ''Garcia''"
  using assms by (simp add: accent_fold_def ustr_def)

lemma family_ascii_of_ascii:
  assumes "unicode_ascii_facts rt" and "\<forall>c\<in>set (family a). c < 128" and "family a \<noteq> []"
  shows "family_ascii rt a = family a"
proof -
  from assms have "normalize_NFD rt (family a) = family a"
    by (simp add: unicode_ascii_facts_def)
  moreover from assms have "filter (\<lambda>ch. \<not> category_Mn rt ch) (family a) = family a"
    by (intro filter_True) (auto simp: unicode_ascii_facts_def)
  moreover from assms have "filter (\<lambda>ch. ch < 128) (family a) = family a"
    by (intro filter_True) auto
  ultimately show ?thesis using assms(3)
    unfolding family_ascii_def Let_def by (simp only: if_True not_False_eq_True)
qed

lemma sample_decompose_ascii: "\<forall>c\<in>set s. c < 128 \<Longrightarrow> concat (map sample_decompose s) = s"
  by (induction s) (auto simp: sample_decompose_def)

lemma sample_runtime_ascii_facts: "unicode_ascii_facts sample_runtime"
  by (simp add: unicode_ascii_facts_def sample_runtime_def sample_decompose_ascii)

lemma filter_alnum_str_int: "filter is_alnum (str_int y) = digits_of (nat \<bar>y\<bar>)"
  by (simp add: str_int_def digits_of_alnum is_alnum_def)

text \<open>
  Claim C1.  For every record, \<open>citation_key\<close> is the concatenation of the accent-folded
  family name of the first author (\<open>unknown\<close> without authors), the decimal year and the
  first maximal alphanumeric run of the title (\<open>Title\<close> when the title has no alphanumeric
  character), with every character outside \<open>[A-Za-z0-9]\<close> removed.  The accent-folded name
  is the specification's: decomposed, without nonspacing marks, without non-ASCII
  characters, the name itself when nothing is left.  The run the code takes is the first
  maximal one.  With first author family \<open>Doe\<close>, year 2024 and title
  \<open>Understanding Quantum Fields\<close> the key is \<open>Doe2024Understanding\<close>, on a runtime whose
  Unicode database treats ASCII as every real one does; and with the family \<open>garcia\<close>
  (\<open>Garcia\<close> written with the accented letter U+00ED) the key is
  \<open>Garcia2024Understanding\<close>, on a runtime that decomposes that letter to \<open>i\<close> and the
  nonspacing mark U+0301.
\<close>

theorem citation_key_spec_refinement:
  "citation_key rt r = citation_key_spec rt r \<and>
   ((\<exists>c\<in>set (title r). is_alnum c) \<longrightarrow>
      is_first_alnum_run (title r) (first_alnum_run (title r))) \<and>
   (unicode_ascii_facts rt \<and> authors r = a # rest \<and> family a = ustr ''Doe'' \<and>
    year r = 2024 \<and> title r = ustr ''Understanding Quantum Fields'' \<longrightarrow>
      citation_key rt r = ustr ''Doe2024Understanding'') \<and>
   (normalize_NFD rt garcia = ustr ''Garci'' @ [769] @ ustr ''a'' \<and> category_Mn rt 769 \<and>
    (\<forall>c<128. \<not> category_Mn rt c) \<and> authors r = a # rest \<and> family a = garcia \<and>
    year r = 2024 \<and> title r = ustr ''Understanding Quantum Fields'' \<longrightarrow>
      citation_key rt r = ustr ''Garcia2024Understanding'')"
proof (intro conjI impI)
  show "citation_key rt r = citation_key_spec rt r" by (rule citation_key_refines)
next
  assume "\<exists>c\<in>set (title r). is_alnum c"
  then show "is_first_alnum_run (title r) (first_alnum_run (title r))"
    by (rule first_alnum_run_is_first)
next
  assume h: "unicode_ascii_facts rt \<and> authors r = a # rest \<and> family a = ustr ''Doe'' \<and>
    year r = 2024 \<and> title r = ustr ''Understanding Quantum Fields''"
  then have "family_ascii rt a = ustr ''Doe''"
    using family_ascii_of_ascii [of rt a] by (simp add: ustr_def)
  moreover have "str_int 2024 = ustr ''2024''" by code_simp
  moreover have "title_first_word (ustr ''Understanding Quantum Fields'') = ustr ''Understanding''"
    by code_simp
  moreover have "filter is_alnum (ustr ''Doe'' @ ustr ''2024'' @ ustr ''Understanding'')
      = ustr ''Doe2024Understanding''"
    by code_simp
  ultimately show "citation_key rt r = ustr ''Doe2024Understanding''"
    using h by (simp add: citation_key_def first_author_def re_sub_non_alnum_filter)
next
  assume h: "normalize_NFD rt garcia = ustr ''Garci'' @ [769] @ ustr ''a'' \<and> category_Mn rt 769 \<and>
    (\<forall>c<128. \<not> category_Mn rt c) \<and> authors r = a # rest \<and> family a = garcia \<and>
    year r = 2024 \<and> title r = ustr ''Understanding Quantum Fields''"
  then have "family_ascii rt a = ustr ''Garcia''"
    using accent_fold_garcia [of rt] by (simp add: family_ascii_accent_fold)
  moreover have "str_int 2024 = ustr ''2024''" by code_simp
  moreover have "title_first_word (ustr ''Understanding Quantum Fields'') = ustr ''Understanding''"
    by code_simp
  moreover have "filter is_alnum (ustr ''Garcia'' @ ustr ''2024'' @ ustr ''Understanding'')
      = ustr ''Garcia2024Understanding''"
    by code_simp
  ultimately show "citation_key rt r = ustr ''Garcia2024Understanding''"
    using h by (simp add: citation_key_def first_author_def re_sub_non_alnum_filter)
qed

theorem citation_key_spec_refinement_witness:
  "unicode_ascii_facts sample_runtime \<and>
   citation_key sample_runtime build_record = ustr ''Doe2024Understanding'' \<and>
   citation_key_spec sample_runtime build_record = ustr ''Doe2024Understanding'' \<and>
   is_first_alnum_run (title build_record) (ustr ''Understanding'') \<and>
   normalize_NFD sample_runtime garcia = ustr ''Garci'' @ [769] @ ustr ''a'' \<and>
   category_Mn sample_runtime 769 \<and>
   citation_key sample_runtime
     (build_record\<lparr>authors := [\<lparr> family = garcia, given = None, orcid = None \<rparr>]\<rparr>)
     = ustr ''Garcia2024Understanding''"
proof -
  have f: "unicode_ascii_facts sample_runtime" by (rule sample_runtime_ascii_facts)
  have w: "first_alnum_run (ustr ''Understanding Quantum Fields'') = ustr ''Understanding''"
    by code_simp
  have e: "\<exists>c\<in>set (title build_record). is_alnum c"
    by (simp add: build_record_def ustr_def is_alnum_def)
  have g: "normalize_NFD sample_runtime garcia = ustr ''Garci'' @ [769] @ ustr ''a''"
    by (simp add: sample_runtime_def sample_decompose_def garcia_def ustr_def)
  have m: "category_Mn sample_runtime 769" "\<forall>c<128. \<not> category_Mn sample_runtime c"
    by (simp_all add: sample_runtime_def)
  note t = citation_key_spec_refinement [of sample_runtime build_record
        "\<lparr> family = ustr ''Doe'', given = Some (ustr ''Jane''), orcid = None \<rparr>"
        "[\<lparr> family = ustr ''Smith'', given = Some (ustr ''John''), orcid = None \<rparr>]"]
  note t2 = citation_key_spec_refinement [of sample_runtime
        "build_record\<lparr>authors := [\<lparr> family = garcia, given = None, orcid = None \<rparr>]\<rparr>"
        "\<lparr> family = garcia, given = None, orcid = None \<rparr>" "[]"]
  from t [THEN conjunct2, THEN conjunct2, THEN conjunct1] f
  have k: "citation_key sample_runtime build_record = ustr ''Doe2024Understanding''"
    by (simp add: build_record_def)
  from t have "citation_key sample_runtime build_record = citation_key_spec sample_runtime build_record"
    by (rule conjunct1)
  with k have s: "citation_key_spec sample_runtime build_record = ustr ''Doe2024Understanding''"
    by simp
  from t [THEN conjunct2, THEN conjunct1] e
  have "is_first_alnum_run (title build_record) (first_alnum_run (title build_record))"
    by blast
  with w have r: "is_first_alnum_run (title build_record) (ustr ''Understanding'')"
    by (simp add: build_record_def)
  from t2 [THEN conjunct2, THEN conjunct2, THEN conjunct2] g m
  have k2: "citation_key sample_runtime
     (build_record\<lparr>authors := [\<lparr> family = garcia, given = None, orcid = None \<rparr>]\<rparr>)
     = ustr ''Garcia2024Understanding''"
    by (simp add: build_record_def)
  from f k s r g m(1) k2 show ?thesis by simp
qed

text \<open>
  Claim C10.  For every record, \<open>citation_key\<close> is not empty: whatever the authors and
  the title are, the decimal digits of the year survive the final strip and stand in the key.
\<close>

theorem citation_key_nonempty:
  "citation_key rt r \<noteq> [] \<and>
   (\<exists>pre post. citation_key rt r = pre @ digits_of (nat \<bar>year r\<bar>) @ post)"
proof -
  have "\<exists>pre post. citation_key rt r = pre @ digits_of (nat \<bar>year r\<bar>) @ post"
    unfolding citation_key_def Let_def re_sub_non_alnum_filter filter_append filter_alnum_str_int
    by blast
  then show ?thesis using digits_of_nonempty by auto
qed

text \<open>
  Claim C9.  Accent folding is idempotent: on a runtime whose normalization leaves ASCII-only
  strings unchanged, \<open>family_ascii\<close> of an author whose family is \<open>family_ascii\<close> of
  another author returns that same name.  Folding the name \<open>garcia\<close>, which is
  \<open>Garcia\<close> with the accented letter U+00ED, gives \<open>Garcia\<close> once the runtime
  decomposes that letter to \<open>i\<close> followed by U+0301 and knows U+0301, and no ASCII
  character, as a nonspacing mark.  When stripping the marks and
  dropping the non-ASCII characters leaves nothing, the family comes back unchanged.
\<close>

theorem family_ascii_idempotent:
  "((\<forall>s. (\<forall>c\<in>set s. c < 128) \<longrightarrow> normalize_NFD rt s = s) \<and> family b = family_ascii rt a \<longrightarrow>
      family_ascii rt b = family_ascii rt a) \<and>
   (normalize_NFD rt garcia = ustr ''Garci'' @ [769] @ ustr ''a'' \<and> category_Mn rt 769 \<and>
    (\<forall>c<128. \<not> category_Mn rt c) \<and> family a = garcia \<longrightarrow>
      family_ascii rt a = ustr ''Garcia'') \<and>
   (filter (\<lambda>ch. ch < 128) (filter (\<lambda>ch. \<not> category_Mn rt ch) (normalize_NFD rt (family a))) = []
      \<longrightarrow> family_ascii rt a = family a)"
proof (intro conjI impI)
  assume h: "(\<forall>s. (\<forall>c\<in>set s. c < 128) \<longrightarrow> normalize_NFD rt s = s) \<and> family b = family_ascii rt a"
  let ?x = "filter (\<lambda>ch. ch < 128) (filter (\<lambda>ch. \<not> category_Mn rt ch) (normalize_NFD rt (family a)))"
  show "family_ascii rt b = family_ascii rt a"
  proof (cases "?x = []")
    case True
    then have "family_ascii rt a = family a" by (simp add: family_ascii_def)
    with h have "family b = family a" by simp
    then show ?thesis by (simp add: family_ascii_def Let_def)
  next
    case False
    then have fa: "family_ascii rt a = ?x" by (simp add: family_ascii_def)
    with h have fb: "family b = ?x" by simp
    have "\<forall>c\<in>set ?x. c < 128" by simp
    with h have n: "normalize_NFD rt ?x = ?x" by blast
    have m: "filter (\<lambda>ch. \<not> category_Mn rt ch) ?x = ?x"
      by (intro filter_True) auto
    have a: "filter (\<lambda>ch. ch < 128) ?x = ?x"
      by (intro filter_True) auto
    from False have "family_ascii rt b = ?x"
      unfolding family_ascii_def Let_def fb n m a by (simp only: if_True not_False_eq_True)
    with fa show ?thesis by simp
  qed
next
  assume h: "normalize_NFD rt garcia = ustr ''Garci'' @ [769] @ ustr ''a'' \<and> category_Mn rt 769 \<and>
    (\<forall>c<128. \<not> category_Mn rt c) \<and> family a = garcia"
  then show "family_ascii rt a = ustr ''Garcia''"
    by (simp add: family_ascii_def ustr_def)
next
  assume "filter (\<lambda>ch. ch < 128) (filter (\<lambda>ch. \<not> category_Mn rt ch) (normalize_NFD rt (family a))) = []"
  then show "family_ascii rt a = family a" by (simp add: family_ascii_def)
qed

theorem family_ascii_idempotent_witness:
  "family_ascii sample_runtime \<lparr> family = garcia, given = Some (ustr ''Mar'' @ [237] @ ustr ''a''), orcid = None \<rparr>
     = ustr ''Garcia'' \<and>
   family_ascii sample_runtime \<lparr> family = ustr ''Garcia'', given = None, orcid = None \<rparr> = ustr ''Garcia'' \<and>
   family_ascii sample_runtime \<lparr> family = [29579], given = None, orcid = None \<rparr> = [29579]"
proof -
  let ?a = "\<lparr> family = garcia, given = Some (ustr ''Mar'' @ [237] @ ustr ''a''), orcid = None \<rparr>"
  let ?b = "\<lparr> family = ustr ''Garcia'', given = None, orcid = None \<rparr>"
  let ?c = "\<lparr> family = [29579], given = None, orcid = None \<rparr>"
  have n: "\<forall>s. (\<forall>c\<in>set s. c < 128) \<longrightarrow> normalize_NFD sample_runtime s = s"
    by (simp add: sample_runtime_def sample_decompose_ascii)
  have g: "normalize_NFD sample_runtime garcia = ustr ''Garci'' @ [769] @ ustr ''a''"
    by (simp add: sample_runtime_def sample_decompose_def garcia_def ustr_def)
  have m: "category_Mn sample_runtime 769 \<and> (\<forall>c<128. \<not> category_Mn sample_runtime c)"
    by (simp add: sample_runtime_def)
  have e: "filter (\<lambda>ch. ch < 128) (filter (\<lambda>ch. \<not> category_Mn sample_runtime ch)
      (normalize_NFD sample_runtime (family ?c))) = []"
    by (simp add: sample_runtime_def sample_decompose_def)
  have 1: "family_ascii sample_runtime ?a = ustr ''Garcia''"
    using family_ascii_idempotent [of sample_runtime ?b ?a] g m by simp
  have 2: "family_ascii sample_runtime ?b = ustr ''Garcia''"
    using family_ascii_idempotent [of sample_runtime ?b ?a] n 1 by simp
  have 3: "family_ascii sample_runtime ?c = [29579]"
    using family_ascii_idempotent [of sample_runtime ?b ?c] e by simp
  from 1 2 3 show ?thesis by simp
qed

section \<open>The bibliography entry\<close>

lemma dict_set_new: "k \<notin> fst ` set d \<Longrightarrow> dict_set d k v = d @ [(k, v)]"
  by (induction d) auto

lemma entry_keys_distinct:
  "distinct [ustr ''title'', ustr ''author'', ustr ''year'', ustr ''doi'', ustr ''journal'',
     ustr ''publisher'']"
  by (simp add: ustr_def)

lemma bibtex_fields_explicit:
  "bibtex_fields r =
     [(ustr ''title'', ustr ''{{ '' @ title r @ ustr '' }}''),
      (ustr ''author'', formatted_authors r),
      (ustr ''year'', str_int (year r)),
      (ustr ''doi'', doi r)] @ journal_part r @ publisher_part r"
proof -
  note d = entry_keys_distinct [simplified]
  show ?thesis
    unfolding bibtex_fields_def Let_def journal_part_def publisher_part_def
    using d by (simp add: dict_set_new split: option.splits)
qed

lemma present_fields_explicit:
  "present_fields r =
     filter (\<lambda>kv. snd kv \<noteq> [])
       [(ustr ''title'', ustr ''{{ '' @ title r @ ustr '' }}''),
        (ustr ''author'', formatted_authors r),
        (ustr ''year'', str_int (year r)),
        (ustr ''doi'', doi r)] @ journal_part r @ publisher_part r"
  unfolding present_fields_def entry_slots_def journal_part_def publisher_part_def
  by (simp split: option.splits)

lemma bibtex_fields_present:
  "filter (\<lambda>kv. snd kv \<noteq> []) (bibtex_fields r) = present_fields r"
  unfolding bibtex_fields_explicit present_fields_explicit
  by (simp add: journal_part_def publisher_part_def split: option.splits)

lemma str_int_nonempty: "str_int y \<noteq> []"
  by (simp add: str_int_def digits_of_nonempty)

lemma title_field_nonempty: "ustr ''{{ '' @ t @ ustr '' }}'' \<noteq> []"
  by (simp add: ustr_def)

lemma present_fields_nonempty: "present_fields r \<noteq> []"
  by (simp add: present_fields_def entry_slots_def ustr_def)

lemma present_iff: "(k, v) \<in> set (present slots) \<longleftrightarrow> (k, Some v) \<in> set slots \<and> v \<noteq> []"
  by (induction slots rule: present.induct) auto

lemma present_keys:
  "distinct (map fst slots) \<Longrightarrow>
     map fst (present slots) = filter (\<lambda>k. k \<in> fst ` set (present slots)) (map fst slots)"
proof (induction slots rule: present.induct)
  case 1
  then show ?case by simp
next
  case (2 k slots)
  then have "k \<notin> fst ` set (present slots)" by (force simp: present_iff)
  with 2 show ?case by simp
next
  case (3 k s slots)
  then have k: "k \<notin> fst ` set (present slots)" by (force simp: present_iff)
  have "filter (\<lambda>x. x = k \<or> x \<in> fst ` set (present slots)) (map fst slots)
      = filter (\<lambda>x. x \<in> fst ` set (present slots)) (map fst slots)"
    using 3(3) by (intro filter_cong) auto
  with 3 k show ?case by simp
qed

lemma update_last_line:
  "xs \<noteq> [] \<Longrightarrow> (h # xs)[length xs := y] = h # butlast xs @ [y]"
  by (cases xs rule: rev_cases) (auto simp: list_update_append)

lemma rstrip_field_line: "str_rstrip (ustr '','') (field_line kv) = spec_field_line True kv"
  by (simp add: str_rstrip_def field_line_def spec_field_line_def ustr_def)

lemma field_line_spec: "field_line = spec_field_line False"
  by (rule ext) (simp add: field_line_def spec_field_line_def ustr_def)

lemma bibtex_lines_refines: "bibtex_lines rt r = entry_spec_lines rt r"
proof -
  let ?fs = "present_fields r"
  let ?h = "ustr ''@'' @ entry_type r @ ustr ''{'' @ citation_key rt r @ ustr '',''"
  have ne: "map field_line ?fs \<noteq> []" using present_fields_nonempty by simp
  have l: "last (?h # map field_line ?fs) = field_line (last ?fs)"
    using present_fields_nonempty by (simp add: last_map)
  have "(?h # map field_line ?fs)[length (map field_line ?fs) := spec_field_line True (last ?fs)]
      = ?h # butlast (map field_line ?fs) @ [spec_field_line True (last ?fs)]"
    using ne by (rule update_last_line)
  then have u: "(?h # map field_line ?fs)[length ?fs := spec_field_line True (last ?fs)]
      = ?h # map (spec_field_line False) (butlast ?fs) @ [spec_field_line True (last ?fs)]"
    by (simp add: map_butlast field_line_spec)
  show ?thesis
    unfolding bibtex_lines_def entry_spec_lines_def Let_def bibtex_fields_present
    using present_fields_nonempty l u
    by (simp add: rstrip_field_line)
qed

lemma publisher_present:
  "ustr ''publisher'' \<in> fst ` set (present_fields r) \<longleftrightarrow>
     (\<exists>p. publisher r = Some p \<and> p \<noteq> []) \<and> entry_type r = ustr ''book''"
proof -
  note d = entry_keys_distinct [simplified]
  have "ustr ''publisher'' \<in> fst ` set (present_fields r) \<longleftrightarrow>
      (\<exists>p. (ustr ''publisher'', p) \<in> set (present_fields r))"
    by force
  also have "\<dots> \<longleftrightarrow> (\<exists>p. (ustr ''publisher'', Some p) \<in> set (entry_slots r) \<and> p \<noteq> [])"
    by (simp add: present_fields_def present_iff)
  also have "\<dots> \<longleftrightarrow> (\<exists>p. publisher r = Some p \<and> p \<noteq> []) \<and> entry_type r = ustr ''book''"
    using d by (auto simp: entry_slots_def; metis)
  finally show ?thesis .
qed

lemma present_keys_order:
  "map fst (present_fields r) =
     filter (\<lambda>k. k \<in> fst ` set (present_fields r))
       [ustr ''title'', ustr ''author'', ustr ''year'', ustr ''doi'', ustr ''journal'',
        ustr ''publisher'']"
proof -
  have k: "map fst (entry_slots r) =
      [ustr ''title'', ustr ''author'', ustr ''year'', ustr ''doi'', ustr ''journal'',
       ustr ''publisher'']"
    by (simp add: entry_slots_def)
  with entry_keys_distinct have "distinct (map fst (entry_slots r))" by simp
  from present_keys [OF this] k show ?thesis by (simp add: present_fields_def)
qed


lemma present_fields_head:
  "authors r = [a, b] \<Longrightarrow> display_name a = ustr ''Doe, Jane'' \<Longrightarrow>
   display_name b = ustr ''Smith, John'' \<Longrightarrow>
   \<exists>rest. present_fields r =
      (ustr ''title'', ustr ''{{ '' @ title r @ ustr '' }}'') #
      (ustr ''author'', ustr ''Doe, Jane and Smith, John'') #
      (ustr ''year'', str_int (year r)) # rest"
  by (simp add: present_fields_def entry_slots_def formatted_authors_def str_int_nonempty)
    (simp add: ustr_def)

text \<open>
  Claim C2.  The lines of the entry \<open>generate_bibtex\<close> joins are the specification's: the
  header, one indented \<open>key = {value},\<close> line for each present field in the fixed order
  title, author, year, doi, journal, publisher, the last of them without its comma, and the
  closing brace.  A field is present exactly when its slot has a value that is not empty,
  and the publisher only when, moreover, the entry type is \<open>book\<close>.  The title's value is
  the title between \<open>{{\<close> and \<open>}}\<close>: for the title \<open>Understanding Quantum Fields\<close> and
  the authors Doe, Jane and Smith, John the entry has the indented lines
  \<open>title = {{{ Understanding Quantum Fields }}},\<close> and
  \<open>author = {Doe, Jane and Smith, John},\<close>.
\<close>

theorem generate_bibtex_entry:
  "generate_bibtex rt r = str_join [10] (entry_spec_lines rt r) \<and>
   bibtex_lines rt r = entry_spec_lines rt r \<and>
   map fst (present_fields r) =
     filter (\<lambda>k. k \<in> fst ` set (present_fields r))
       [ustr ''title'', ustr ''author'', ustr ''year'', ustr ''doi'', ustr ''journal'',
        ustr ''publisher''] \<and>
   (\<forall>k v. (k, v) \<in> set (present_fields r) \<longleftrightarrow> (k, Some v) \<in> set (entry_slots r) \<and> v \<noteq> []) \<and>
   (ustr ''publisher'' \<in> fst ` set (present_fields r) \<longleftrightarrow>
      (\<exists>p. publisher r = Some p \<and> p \<noteq> []) \<and> entry_type r = ustr ''book'') \<and>
   (title r = ustr ''Understanding Quantum Fields'' \<and> authors r = [a, b] \<and>
    a = \<lparr> family = ustr ''Doe'', given = Some (ustr ''Jane''), orcid = o1 \<rparr> \<and>
    b = \<lparr> family = ustr ''Smith'', given = Some (ustr ''John''), orcid = o2 \<rparr> \<longrightarrow>
      ustr ''  title = {{{ Understanding Quantum Fields }}},'' \<in> set (bibtex_lines rt r) \<and>
      ustr ''  author = {Doe, Jane and Smith, John},'' \<in> set (bibtex_lines rt r))"
proof (intro conjI impI allI)
  show "generate_bibtex rt r = str_join [10] (entry_spec_lines rt r)"
    by (simp add: generate_bibtex_def bibtex_lines_refines)
  show "bibtex_lines rt r = entry_spec_lines rt r" by (rule bibtex_lines_refines)
  show "map fst (present_fields r) =
     filter (\<lambda>k. k \<in> fst ` set (present_fields r))
       [ustr ''title'', ustr ''author'', ustr ''year'', ustr ''doi'', ustr ''journal'',
        ustr ''publisher'']"
    by (rule present_keys_order)
  show "(k, v) \<in> set (present_fields r) \<longleftrightarrow> (k, Some v) \<in> set (entry_slots r) \<and> v \<noteq> []" for k v
    by (simp add: present_fields_def present_iff)
  show "ustr ''publisher'' \<in> fst ` set (present_fields r) \<longleftrightarrow>
      (\<exists>p. publisher r = Some p \<and> p \<noteq> []) \<and> entry_type r = ustr ''book''"
    by (rule publisher_present)
next
  assume h: "title r = ustr ''Understanding Quantum Fields'' \<and> authors r = [a, b] \<and>
    a = \<lparr> family = ustr ''Doe'', given = Some (ustr ''Jane''), orcid = o1 \<rparr> \<and>
    b = \<lparr> family = ustr ''Smith'', given = Some (ustr ''John''), orcid = o2 \<rparr>"
  then have "display_name a = ustr ''Doe, Jane''" "display_name b = ustr ''Smith, John''"
    by (simp_all add: display_name_def ustr_def)
  with h obtain rest where fs: "present_fields r =
      (ustr ''title'', ustr ''{{ '' @ title r @ ustr '' }}'') #
      (ustr ''author'', ustr ''Doe, Jane and Smith, John'') #
      (ustr ''year'', str_int (year r)) # rest"
    using present_fields_head [of r a b] by blast
  have t: "spec_field_line False (ustr ''title'', ustr ''{{ '' @ title r @ ustr '' }}'')
      = ustr ''  title = {{{ Understanding Quantum Fields }}},''"
    using h by (simp add: spec_field_line_def ustr_def)
  have a: "spec_field_line False (ustr ''author'', ustr ''Doe, Jane and Smith, John'')
      = ustr ''  author = {Doe, Jane and Smith, John},''"
    by (simp add: spec_field_line_def ustr_def)
  have "set (map (spec_field_line False) (butlast (present_fields r))) \<subseteq> set (entry_spec_lines rt r)"
    by (auto simp: entry_spec_lines_def Let_def)
  moreover have "spec_field_line False (ustr ''title'', ustr ''{{ '' @ title r @ ustr '' }}'')
      \<in> set (map (spec_field_line False) (butlast (present_fields r)))"
    unfolding fs by simp
  moreover have "spec_field_line False (ustr ''author'', ustr ''Doe, Jane and Smith, John'')
      \<in> set (map (spec_field_line False) (butlast (present_fields r)))"
    unfolding fs by simp
  ultimately show "ustr ''  title = {{{ Understanding Quantum Fields }}},'' \<in> set (bibtex_lines rt r)"
    and "ustr ''  author = {Doe, Jane and Smith, John},'' \<in> set (bibtex_lines rt r)"
    unfolding bibtex_lines_refines t a by blast+
qed

theorem generate_bibtex_entry_witness:
  "bibtex_lines sample_runtime build_record =
     [ustr ''@article{Doe2024Understanding,'',
      ustr ''  title = {{{ Understanding Quantum Fields }}},'',
      ustr ''  author = {Doe, Jane and Smith, John},'',
      ustr ''  year = {2024},'',
      ustr ''  doi = {10.1000/test},'',
      ustr ''  journal = {Journal of Testing}'',
      ustr ''}''] \<and>
   ustr ''  author = {Doe, Jane and Smith, John},'' \<in> set (bibtex_lines sample_runtime build_record) \<and>
   ustr ''publisher'' \<notin> fst ` set (present_fields build_record)"
proof -
  note t = generate_bibtex_entry [of sample_runtime build_record
      "\<lparr> family = ustr ''Doe'', given = Some (ustr ''Jane''), orcid = None \<rparr>"
      "\<lparr> family = ustr ''Smith'', given = Some (ustr ''John''), orcid = None \<rparr>" None None]
  have k: "citation_key sample_runtime build_record = ustr ''Doe2024Understanding''"
    by code_simp
  have y: "str_int 2024 = ustr ''2024''" by code_simp
  have p: "present_fields build_record =
     [(ustr ''title'', ustr ''{{ Understanding Quantum Fields }}''),
      (ustr ''author'', ustr ''Doe, Jane and Smith, John''),
      (ustr ''year'', ustr ''2024''),
      (ustr ''doi'', ustr ''10.1000/test''),
      (ustr ''journal'', ustr ''Journal of Testing'')]"
    by code_simp
  from t [THEN conjunct2, THEN conjunct1]
  have 1: "bibtex_lines sample_runtime build_record = entry_spec_lines sample_runtime build_record" .
  have 2: "entry_spec_lines sample_runtime build_record =
     [ustr ''@article{Doe2024Understanding,'',
      ustr ''  title = {{{ Understanding Quantum Fields }}},'',
      ustr ''  author = {Doe, Jane and Smith, John},'',
      ustr ''  year = {2024},'',
      ustr ''  doi = {10.1000/test},'',
      ustr ''  journal = {Journal of Testing}'',
      ustr ''}'']"
    unfolding entry_spec_lines_def Let_def p k
    by (simp add: spec_field_line_def build_record_def ustr_def)
  from t [THEN conjunct2, THEN conjunct2, THEN conjunct2, THEN conjunct2, THEN conjunct2]
  have 3: "ustr ''  author = {Doe, Jane and Smith, John},'' \<in> set (bibtex_lines sample_runtime build_record)"
    by (simp add: build_record_def)
  from t [THEN conjunct2, THEN conjunct2, THEN conjunct2, THEN conjunct2, THEN conjunct1]
  have 4: "ustr ''publisher'' \<notin> fst ` set (present_fields build_record)"
    by (simp add: build_record_def)
  from 1 2 3 4 show ?thesis by simp
qed

section \<open>The duplicate matcher\<close>

lemma candidate_of_id: "candidate_of rt st oid obj = Inr c \<Longrightarrow> object_id c = oid"
  by (auto simp: candidate_of_def Let_def split: sum.splits)

lemma extend_candidates_inv:
  "extend_candidates rt st cs objs = Inr cs' \<Longrightarrow> matcher_inv cs \<Longrightarrow>
     matcher_inv cs' \<and> snd cs' = snd cs \<union> raw_id rt ` set objs \<and>
     (\<exists>new. fst cs' = fst cs @ new)"
proof (induction rt st cs objs arbitrary: cs' rule: extend_candidates.induct)
  case (1 rt st target seen)
  then show ?case by simp
next
  case (2 rt st target seen obj raw_objects)
  let ?oid = "py_str rt (dict_get obj (ustr ''id''))"
  show ?case
  proof (cases "?oid \<in> seen")
    case True
    with 2 show ?thesis by (auto simp: raw_id_def)
  next
    case False
    with "2.prems"(1) obtain c where c: "candidate_of rt st ?oid obj = Inr c"
      and e: "extend_candidates rt st (target @ [c], insert ?oid seen) raw_objects = Inr cs'"
      by (auto simp: Let_def split: sum.splits)
    from c have id: "object_id c = ?oid" by (rule candidate_of_id)
    with False "2.prems"(2) have "matcher_inv (target @ [c], insert ?oid seen)"
      by (auto simp: matcher_inv_def)
    with "2.IH"(2) [OF refl False c e] show ?thesis
      by (auto simp: raw_id_def)
  qed
qed

lemma doi_tier_run:
  assumes "doi_tier rt st cl r cs w = (Inr cs', w')"
  shows "answers w' = answers w \<and>
    (if doi r \<noteq> []
     then trace w' = trace w @ [SearchByProperty (anytype_field_doi st) (doi r) 5] \<and>
       (\<exists>objs. search_by_property cl (trace w) (anytype_field_doi st) (doi r) 5 = Inr objs \<and>
          extend_candidates rt st cs objs = Inr cs')
     else trace w' = trace w \<and> cs' = cs)"
  using assms
  by (auto simp: doi_tier_def io_bind_def io_lift_def io_return_def do_search_by_property_def
      split: if_splits sum.splits)

lemma author_tier_run:
  assumes "author_tier rt st cl r cs w = (Inr cs', w')"
  shows "answers w' = answers w \<and>
    (if set (author_last_names rt r) \<noteq> {}
     then trace w' = trace w @
         [SearchByText (str_join (ustr '' '') (set_iter rt (author_last_names rt r))) 5] \<and>
       (\<exists>objs. search_by_text cl (trace w)
            (str_join (ustr '' '') (set_iter rt (author_last_names rt r))) 5 = Inr objs \<and>
          extend_candidates rt st cs objs = Inr cs')
     else trace w' = trace w \<and> cs' = cs)"
  using assms
  by (auto simp: author_tier_def io_bind_def io_lift_def io_return_def do_search_by_text_def
      split: if_splits sum.splits)

lemma title_tier_run:
  assumes "title_tier rt st cl r cs w = (Inr cs', w')"
  shows "answers w' = answers w \<and>
    (if fst cs = [] \<and> title r \<noteq> []
     then trace w' = trace w @ [SearchByText (title r) 3] \<and>
       (\<exists>objs. search_by_text cl (trace w) (title r) 3 = Inr objs \<and>
          extend_candidates rt st cs objs = Inr cs')
     else trace w' = trace w \<and> cs' = cs)"
  using assms
  by (auto simp: title_tier_def io_bind_def io_lift_def io_return_def do_search_by_text_def
      split: if_splits sum.splits)

lemma find_duplicates_run:
  assumes "find_duplicates rt st cl r w = (Inr cands, w')"
  shows "\<exists>cs1 w1 cs2 w2 cs3.
     doi_tier rt st cl r ([], {}) w = (Inr cs1, w1) \<and>
     author_tier rt st cl r cs1 w1 = (Inr cs2, w2) \<and>
     title_tier rt st cl r cs2 w2 = (Inr cs3, w') \<and> cands = fst cs3"
  using assms
  by (auto simp: find_duplicates_def io_bind_def io_return_def split: prod.splits sum.splits)

lemma tier_inv:
  "doi_tier rt st cl r cs w = (Inr cs', w') \<Longrightarrow> matcher_inv cs \<Longrightarrow> matcher_inv cs'"
  "author_tier rt st cl r cs w = (Inr cs', w') \<Longrightarrow> matcher_inv cs \<Longrightarrow> matcher_inv cs'"
  "title_tier rt st cl r cs w = (Inr cs', w') \<Longrightarrow> matcher_inv cs \<Longrightarrow> matcher_inv cs'"
  using doi_tier_run [of rt st cl r cs w cs' w'] author_tier_run [of rt st cl r cs w cs' w']
    title_tier_run [of rt st cl r cs w cs' w']
  by (auto split: if_splits dest: extend_candidates_inv)

lemma tier_mono:
  "doi_tier rt st cl r cs w = (Inr cs', w') \<Longrightarrow> matcher_inv cs \<Longrightarrow> snd cs \<subseteq> snd cs'"
  "author_tier rt st cl r cs w = (Inr cs', w') \<Longrightarrow> matcher_inv cs \<Longrightarrow> snd cs \<subseteq> snd cs'"
  "title_tier rt st cl r cs w = (Inr cs', w') \<Longrightarrow> matcher_inv cs \<Longrightarrow> snd cs \<subseteq> snd cs'"
  using doi_tier_run [of rt st cl r cs w cs' w'] author_tier_run [of rt st cl r cs w cs' w']
    title_tier_run [of rt st cl r cs w cs' w']
  by (auto split: if_splits dest: extend_candidates_inv)

lemma matcher_inv_empty: "matcher_inv ([], {})"
  by (simp add: matcher_inv_def)

lemma distinct_filter_one:
  "distinct (map f xs) \<Longrightarrow> i \<in> f ` set xs \<Longrightarrow> length (filter (\<lambda>c. f c = i) xs) = 1"
proof (induction xs)
  case Nil
  then show ?case by simp
next
  case (Cons x xs)
  show ?case
  proof (cases "f x = i")
    case True
    with Cons.prems have "filter (\<lambda>c. f c = i) xs = []"
      by (auto simp: filter_empty_conv) (metis imageI)
    with True show ?thesis by simp
  next
    case False
    with Cons show ?thesis by auto
  qed
qed

lemma matcher_inv_count:
  assumes "matcher_inv cs" and "i \<in> snd cs"
  shows "length (filter (\<lambda>c. object_id c = i) (fst cs)) = 1"
  using assms distinct_filter_one [of object_id "fst cs" i]
  by (auto simp: matcher_inv_def)


lemma candidate_of_total:
  "anytype_author_separator st \<noteq> [] \<Longrightarrow> \<exists>c. candidate_of rt st oid obj = Inr c"
  by (auto simp: candidate_of_def Let_def str_split_def split: sum.splits json.splits)

lemma find_duplicates_inv:
  assumes "find_duplicates rt st cl r w = (Inr cands, w')"
  shows "\<exists>cs1 w1 cs2 w2 cs3.
     doi_tier rt st cl r ([], {}) w = (Inr cs1, w1) \<and>
     author_tier rt st cl r cs1 w1 = (Inr cs2, w2) \<and>
     title_tier rt st cl r cs2 w2 = (Inr cs3, w') \<and> cands = fst cs3 \<and>
     matcher_inv cs1 \<and> matcher_inv cs2 \<and> matcher_inv cs3 \<and>
     snd cs1 \<subseteq> snd cs3 \<and> snd cs2 \<subseteq> snd cs3"
proof -
  from find_duplicates_run [OF assms] obtain cs1 w1 cs2 w2 cs3 where
    t1: "doi_tier rt st cl r ([], {}) w = (Inr cs1, w1)" and
    t2: "author_tier rt st cl r cs1 w1 = (Inr cs2, w2)" and
    t3: "title_tier rt st cl r cs2 w2 = (Inr cs3, w')" and c: "cands = fst cs3"
    by blast
  from tier_inv(1) [OF t1 matcher_inv_empty] have i1: "matcher_inv cs1" .
  from tier_inv(2) [OF t2 i1] have i2: "matcher_inv cs2" .
  from tier_inv(3) [OF t3 i2] have i3: "matcher_inv cs3" .
  from tier_mono(2) [OF t2 i1] tier_mono(3) [OF t3 i2]
  have "snd cs1 \<subseteq> snd cs3" "snd cs2 \<subseteq> snd cs3" by auto
  with t1 t2 t3 c i1 i2 i3 show ?thesis by blast
qed

text \<open>
  Claim C4.  When \<open>find_duplicates\<close> returns, no two candidates have the same object
  identifier, whatever the searches returned; and an identifier returned by the property
  search, or by the author text search, belongs to exactly one candidate of the result, so
  one returned by both tiers appears exactly once.
\<close>

theorem find_duplicates_distinct_ids:
  assumes "find_duplicates rt st cl r w = (Inr cands, w')"
  shows "distinct (map object_id cands) \<and>
    (\<forall>objs obj. doi r \<noteq> [] \<and>
        search_by_property cl (trace w) (anytype_field_doi st) (doi r) 5 = Inr objs \<and>
        obj \<in> set objs \<longrightarrow>
        length (filter (\<lambda>c. object_id c = raw_id rt obj) cands) = 1) \<and>
    (\<forall>objs obj. set (author_last_names rt r) \<noteq> {} \<and>
        search_by_text cl
          (trace w @ (if doi r \<noteq> [] then [SearchByProperty (anytype_field_doi st) (doi r) 5]
                      else []))
          (str_join (ustr '' '') (set_iter rt (author_last_names rt r))) 5 = Inr objs \<and>
        obj \<in> set objs \<longrightarrow>
        length (filter (\<lambda>c. object_id c = raw_id rt obj) cands) = 1)"
proof -
  from find_duplicates_inv [OF assms] obtain cs1 w1 cs2 w2 cs3 where
    t1: "doi_tier rt st cl r ([], {}) w = (Inr cs1, w1)" and
    t2: "author_tier rt st cl r cs1 w1 = (Inr cs2, w2)" and
    c: "cands = fst cs3" and i1: "matcher_inv cs1" and i3: "matcher_inv cs3" and
    s1: "snd cs1 \<subseteq> snd cs3" and s2: "snd cs2 \<subseteq> snd cs3"
    by blast
  note r1 = doi_tier_run [OF t1]
  note r2 = author_tier_run [OF t2]
  have d: "distinct (map object_id cands)" using i3 c by (simp add: matcher_inv_def)
  have p: "length (filter (\<lambda>c. object_id c = raw_id rt obj) cands) = 1"
    if "doi r \<noteq> []"
      "search_by_property cl (trace w) (anytype_field_doi st) (doi r) 5 = Inr objs"
      "obj \<in> set objs" for objs obj
  proof -
    from r1 that have "extend_candidates rt st ([], {}) objs = Inr cs1" by auto
    from extend_candidates_inv [OF this matcher_inv_empty] that(3)
    have "raw_id rt obj \<in> snd cs1" by auto
    with s1 have "raw_id rt obj \<in> snd cs3" by auto
    from matcher_inv_count [OF i3 this] c show ?thesis by simp
  qed
  have q: "length (filter (\<lambda>c. object_id c = raw_id rt obj) cands) = 1"
    if "set (author_last_names rt r) \<noteq> {}"
      "search_by_text cl
          (trace w @ (if doi r \<noteq> [] then [SearchByProperty (anytype_field_doi st) (doi r) 5]
                      else []))
          (str_join (ustr '' '') (set_iter rt (author_last_names rt r))) 5 = Inr objs"
      "obj \<in> set objs" for objs obj
  proof -
    from r1 have "trace w1 = trace w @
        (if doi r \<noteq> [] then [SearchByProperty (anytype_field_doi st) (doi r) 5] else [])"
      by (auto split: if_splits)
    with r2 that have "extend_candidates rt st cs1 objs = Inr cs2" by auto
    from extend_candidates_inv [OF this i1] that(3)
    have "raw_id rt obj \<in> snd cs2" by auto
    with s2 have "raw_id rt obj \<in> snd cs3" by auto
    from matcher_inv_count [OF i3 this] c show ?thesis by simp
  qed
  from d p q show ?thesis by blast
qed

lemma existing_candidate_of:
  "candidate_of sample_runtime sample_settings (ustr ''existing'') existing_object =
     Inr \<lparr> object_id = ustr ''existing'', cand_title = Some (ustr ''Existing''),
           cand_doi = Some (ustr ''10.1000/test''),
           cand_authors = [ustr ''Doe, Jane'', ustr ''Smith, John''] \<rparr>"
  by code_simp

lemma sample_find_duplicates:
  "find_duplicates sample_runtime sample_settings sample_client build_record
       \<lparr> trace = [], answers = xs \<rparr> =
     (Inr [\<lparr> object_id = ustr ''existing'', cand_title = Some (ustr ''Existing''),
             cand_doi = Some (ustr ''10.1000/test''),
             cand_authors = [ustr ''Doe, Jane'', ustr ''Smith, John''] \<rparr>],
      \<lparr> trace = [SearchByProperty (ustr ''doi'') (ustr ''10.1000/test'') 5,
                  SearchByText (ustr ''doe smith'') 5],
         answers = xs \<rparr>)"
proof -
  have i: "raw_id sample_runtime existing_object = ustr ''existing''" by code_simp
  have n: "author_last_names sample_runtime build_record = [ustr ''doe'', ustr ''smith'']"
    by code_simp
  have j: "str_join (ustr '' '') (set_iter sample_runtime [ustr ''doe'', ustr ''smith''])
      = ustr ''doe smith''"
    by code_simp
  have d: "doi build_record = ustr ''10.1000/test''" "doi build_record \<noteq> []"
    "anytype_field_doi sample_settings = ustr ''doi''"
    by (simp_all add: build_record_def sample_settings_def ustr_def)
  have s: "search_by_property sample_client = (\<lambda>tr k v n. Inr [existing_object])"
    "search_by_text sample_client = (\<lambda>tr q n. Inr [existing_object])"
    by (simp_all add: sample_client_def)
  show ?thesis
    unfolding find_duplicates_def doi_tier_def author_tier_def title_tier_def n j
    using i d s existing_candidate_of
    by (simp add: io_bind_def io_lift_def io_return_def do_search_by_property_def
        do_search_by_text_def raw_id_def ustr_def Let_def)
qed


theorem find_duplicates_distinct_ids_witness:
  "find_duplicates sample_runtime sample_settings sample_client build_record
       \<lparr> trace = [], answers = [] \<rparr> =
     (Inr [\<lparr> object_id = ustr ''existing'', cand_title = Some (ustr ''Existing''),
             cand_doi = Some (ustr ''10.1000/test''),
             cand_authors = [ustr ''Doe, Jane'', ustr ''Smith, John''] \<rparr>],
      \<lparr> trace = [SearchByProperty (ustr ''doi'') (ustr ''10.1000/test'') 5,
                  SearchByText (ustr ''doe smith'') 5],
         answers = [] \<rparr>) \<and>
   search_by_property sample_client [] (ustr ''doi'') (ustr ''10.1000/test'') 5
     = Inr [existing_object] \<and>
   search_by_text sample_client [SearchByProperty (ustr ''doi'') (ustr ''10.1000/test'') 5]
       (ustr ''doe smith'') 5 = Inr [existing_object] \<and>
   length (filter (\<lambda>c. object_id c = raw_id sample_runtime existing_object)
       [\<lparr> object_id = ustr ''existing'', cand_title = Some (ustr ''Existing''),
          cand_doi = Some (ustr ''10.1000/test''),
          cand_authors = [ustr ''Doe, Jane'', ustr ''Smith, John''] \<rparr>]) = 1"
proof -
  note f = sample_find_duplicates [of "[]"]
  have d: "doi build_record \<noteq> []" "doi build_record = ustr ''10.1000/test''"
    "anytype_field_doi sample_settings = ustr ''doi''"
    by (simp_all add: build_record_def sample_settings_def ustr_def)
  have s: "search_by_property sample_client [] (ustr ''doi'') (ustr ''10.1000/test'') 5
      = Inr [existing_object]"
    "search_by_text sample_client [SearchByProperty (ustr ''doi'') (ustr ''10.1000/test'') 5]
       (ustr ''doe smith'') 5 = Inr [existing_object]"
    by (simp_all add: sample_client_def)
  from find_duplicates_distinct_ids [OF f, THEN conjunct2, THEN conjunct1] d s(1)
  have "length (filter (\<lambda>c. object_id c = raw_id sample_runtime existing_object)
       [\<lparr> object_id = ustr ''existing'', cand_title = Some (ustr ''Existing''),
          cand_doi = Some (ustr ''10.1000/test''),
          cand_authors = [ustr ''Doe, Jane'', ustr ''Smith, John''] \<rparr>]) = 1"
    by simp
  with f s show ?thesis by simp
qed



lemma py_str_missing_id: "map_of obj (ustr ''id'') = None \<Longrightarrow> raw_id rt obj = ustr ''None''"
  by (simp add: raw_id_def dict_get_def dict_get_default_def py_str_def)

lemma extend_candidates_no_id:
  assumes "map_of obj (ustr ''id'') = None"
  shows "extend_candidates rt st (target, seen) (obj # objs) =
     (if ustr ''None'' \<in> seen then extend_candidates rt st (target, seen) objs
      else (case candidate_of rt st (ustr ''None'') obj of
              Inl e \<Rightarrow> Inl e
            | Inr c \<Rightarrow>
                extend_candidates rt st (target @ [c], insert (ustr ''None'') seen) objs))"
  using py_str_missing_id [OF assms, of rt] by (simp add: raw_id_def Let_def)

text \<open>
  Claim C5 says that a raw result without an \<open>id\<close> is dropped, without an error.  The
  loop of \<open>_extend_candidates\<close> has no such test: \<open>str(obj.get("id"))\<close> is the text
  \<open>None\<close>, which is never empty, so the result becomes a candidate whose \<open>object_id\<close> is
  \<open>None\<close>.  The same loop guards the title and the DOI (\<open>str(x) if x else None\<close>), and
  \<open>_extract_object_id\<close> and \<open>upload_file\<close> test the identifier before \<open>str\<close>; here the
  test is missing.  The theorem runs the loop on one result that has only a \<open>name\<close>.
\<close>

theorem extend_candidates_missing_id_evaluated:
  "extend_candidates sample_runtime sample_settings ([], {}) [nameless_object] =
     Inr ([\<lparr> object_id = ustr ''None'', cand_title = Some (ustr ''Untitled''),
              cand_doi = None, cand_authors = [] \<rparr>], {ustr ''None''})"
  by code_simp

section \<open>Year extraction\<close>

lemma extract_year_issued_only:
  "extract_year rt [(ustr ''issued'', JObj [(ustr ''date-parts'', JList [JList [JInt 2023]])])]
     = Inr 2023"
  by (simp add: extract_year_def dict_get_default_def dict_get_def getitem0_def py_int_def
      ustr_def)

lemma extract_year_no_field:
  assumes "map_of message (ustr ''published-print'') = None"
    and "map_of message (ustr ''published-online'') = None"
    and "map_of message (ustr ''issued'') = None"
  shows "extract_year rt message = Inl MetadataRetrievalError"
  using assms by (simp add: extract_year_def dict_get_default_def dict_get_def)

lemma extract_year_first_print:
  assumes "map_of message (ustr ''published-print'') = Some (JObj d)"
    and "map_of d (ustr ''date-parts'') = Some (JList (JList (JInt y # ms) # ps))"
  shows "extract_year rt message = Inr y"
  using assms
  by (simp add: extract_year_def dict_get_default_def dict_get_def getitem0_def py_int_def)

text \<open>
  Claim C6 holds on the payloads of the three lemmas above: the keys are probed in the
  order print, online, issued, the first component of the first usable \<open>date-parts\<close> is
  the year, a payload whose only date is \<open>issued\<close> with \<open>[[2023]]\<close> gives 2023, and a
  payload with none of the three keys raises \<open>MetadataRetrievalError\<close>.  It fails on a
  payload whose date has \<open>date-parts\<close> \<open>[[null]]\<close>, which the metadata source sends
  for a work without a date: the guard of the loop accepts the entry \<open>[null]\<close> because it
  is a non-empty list, and \<open>int(None)\<close> raises \<open>TypeError\<close> where the claim has
  \<open>MetadataRetrievalError\<close>.
\<close>

theorem extract_year_null_component:
  "extract_year rt [(ustr ''issued'', JObj [(ustr ''date-parts'', JList [JList [JNull]])])]
     = Inl TypeError"
  by (simp add: extract_year_def dict_get_default_def dict_get_def getitem0_def py_int_def
      ustr_def)

section \<open>The resolution coordinator\<close>

lemma only_searches_return: "only_searches (io_return x)"
  by (simp add: only_searches_def io_return_def)

lemma only_searches_lift: "only_searches (io_lift v)"
  by (simp add: only_searches_def io_lift_def)

lemma only_searches_bind:
  assumes "only_searches m" and "\<And>x. only_searches (f x)"
  shows "only_searches (io_bind m f)"
  unfolding only_searches_def
proof (intro allI)
  fix w
  obtain res w1 where m: "m w = (res, w1)" by (cases "m w")
  from assms(1) m obtain ss where a: "answers w1 = answers w" and
    t: "trace w1 = trace w @ ss" and s: "list_all is_search ss"
    unfolding only_searches_def by (metis snd_conv)
  show "answers (snd (io_bind m f w)) = answers w \<and>
      (\<exists>ss. trace (snd (io_bind m f w)) = trace w @ ss \<and> list_all is_search ss)"
  proof (cases res)
    case (Inl e)
    with m a t s show ?thesis by (auto simp: io_bind_def)
  next
    case (Inr x)
    from assms(2) [of x] obtain ss' where a': "answers (snd (f x w1)) = answers w1" and
      t': "trace (snd (f x w1)) = trace w1 @ ss'" and s': "list_all is_search ss'"
      unfolding only_searches_def by blast
    from t t' s s' have "trace (snd (f x w1)) = trace w @ (ss @ ss') \<and> list_all is_search (ss @ ss')"
      by simp
    with Inr m a a' show ?thesis by (auto simp: io_bind_def)
  qed
qed

lemma only_searches_do_search:
  "only_searches (do_search_by_property cl k v n)"
  "only_searches (do_search_by_text cl q n)"
  by (simp_all add: only_searches_def do_search_by_property_def do_search_by_text_def)

lemma only_searches_tiers:
  "only_searches (doi_tier rt st cl r cs)"
  "only_searches (author_tier rt st cl r cs)"
  "only_searches (title_tier rt st cl r cs)"
  by (auto simp: doi_tier_def author_tier_def title_tier_def
      intro!: only_searches_bind only_searches_return only_searches_lift only_searches_do_search)

lemma only_searches_find_duplicates: "only_searches (find_duplicates rt st cl r)"
  unfolding find_duplicates_def
  by (intro only_searches_bind only_searches_return only_searches_tiers)

lemma only_searches_detect: "only_searches (detect rt det r)"
  by (cases det) (simp_all add: detect_def only_searches_return only_searches_find_duplicates)

lemma detect_run:
  assumes "detect rt det r w = (res, w1)"
  shows "answers w1 = answers w \<and> (\<exists>ss. trace w1 = trace w @ ss \<and> list_all is_search ss)"
  using only_searches_detect [of rt det r] assms unfolding only_searches_def
  by (metis snd_conv)


lemma choice_u: "str_lower rt (str_strip rt (ustr ''u'')) = ustr ''u''"
  by (simp add: str_lower_def str_strip_def is_space_def ascii_lower_def ustr_def)

lemma choice_c: "str_lower rt (str_strip rt (ustr ''c'')) = ustr ''c''"
  by (simp add: str_lower_def str_strip_def is_space_def ascii_lower_def ustr_def)

lemma index_1: "int_of_str rt (str_strip rt (ustr ''1'')) = Inr 1"
  by (simp add: int_of_str_def str_strip_def is_space_def is_digit_def decimal_value_def
      ustr_def)

lemma prompt_loop_u1:
  "prompt_loop rt [c] [ustr ''u'', ustr ''1''] = (Inr (ustr ''use_existing'', Some c), [])"
proof -
  have n: "ustr ''u'' \<noteq> ustr ''a''" "ustr ''u'' \<noteq> ustr ''abort''" "ustr ''u'' \<noteq> ustr ''c''"
    "ustr ''u'' \<noteq> ustr ''create''"
    by (simp_all add: ustr_def)
  show ?thesis using n by (simp add: choice_u index_1)
qed

lemma prompt_loop_c:
  "prompt_loop rt cands [ustr ''c''] = (Inr (ustr ''create'', None), [])"
proof -
  have n: "ustr ''c'' \<noteq> ustr ''a''" "ustr ''c'' \<noteq> ustr ''abort''"
    by (simp_all add: ustr_def)
  show ?thesis using n by (simp add: choice_c)
qed

lemma update_existing_trace:
  assumes "service_publisher svc = Some pub"
  shows "trace (snd (update_existing svc c r bib pdf w)) =
     trace w @ [UpdateObject (object_id c) (build_fields (settings pub) r bib)] @
     (case pdf of
        None \<Rightarrow> []
      | Some path \<Rightarrow>
          (case update_object (client pub) (trace w) (object_id c)
                  (build_fields (settings pub) r bib) of
             Inl e \<Rightarrow> []
           | Inr d \<Rightarrow>
               UploadFile path #
               (case upload_file (client pub)
                       (trace w @ [UpdateObject (object_id c)
                                     (build_fields (settings pub) r bib)]) path of
                  Inl e \<Rightarrow> []
                | Inr fid \<Rightarrow> [AttachFileToObject (object_id c) fid])))"
  using assms
  by (simp add: update_existing_def update_reference_def attach_pdf_def io_bind_def
      io_return_def do_update_object_def do_upload_file_def do_attach_file_to_object_def
      split: option.splits sum.splits)

lemma create_new_trace:
  "\<exists>tail. trace (snd (create_new rt pub r bib pdf w)) =
     trace w @ CreateObject
        (if entry_type r = ustr ''book'' then anytype_object_type_book (settings pub)
         else anytype_object_type_article (settings pub))
        (title r) (build_fields (settings pub) r bib) # tail \<and>
     list_all (\<lambda>c. is_upload c \<or> is_attach c) tail"
  by (simp add: create_new_def create_reference_def attach_pdf_def io_bind_def io_lift_def
      io_return_def do_create_object_def do_upload_file_def do_attach_file_to_object_def
      Let_def split: option.splits sum.splits)


lemma is_search_kind:
  "is_search k \<Longrightarrow> \<not> is_create k \<and> \<not> is_update k \<and> \<not> is_upload k \<and> \<not> is_attach k"
  by (cases k) simp_all

lemma upload_attach_kind:
  "is_upload k \<or> is_attach k \<Longrightarrow> \<not> is_create k \<and> \<not> is_update k"
  by (cases k) simp_all

lemma searches_filtered:
  assumes "list_all is_search ss"
  shows "filter is_create ss = []" "filter is_update ss = []" "filter is_upload ss = []"
    "filter is_attach ss = []"
  using assms by (auto simp: filter_empty_conv list_all_iff dest: is_search_kind)

lemma action_names:
  "ustr ''use_existing'' \<noteq> ustr ''abort''" "ustr ''create'' \<noteq> ustr ''abort''"
  "ustr ''create'' \<noteq> ustr ''use_existing''"
  by (simp_all add: ustr_def)

lemma publish_after_prompt:
  assumes "service_publisher svc = Some pub"
    and "detect rt (case duplicate_detector svc of None \<Rightarrow> NoopDuplicateDetector
                    | Some d \<Rightarrow> d) r w = (Inr cands, w1)"
    and "cands \<noteq> []"
    and "prompt_loop rt cands (answers w) = (Inr (action, selected), rest)"
  shows "publish_to_anytype rt svc r bib pdf w =
     (if action = ustr ''abort'' then (Inr (), w1\<lparr>answers := rest\<rparr>)
      else if action = ustr ''use_existing''
      then (case selected of
              Some candidate \<Rightarrow> update_existing svc candidate r bib pdf (w1\<lparr>answers := rest\<rparr>)
            | None \<Rightarrow> create_new rt pub r bib pdf (w1\<lparr>answers := rest\<rparr>))
      else create_new rt pub r bib pdf (w1\<lparr>answers := rest\<rparr>))"
proof -
  from detect_run [OF assms(2)] have a: "answers w1 = answers w" by simp
  with assms(4) have "prompt_duplicate_action rt cands w1 =
      (Inr (action, selected), w1\<lparr>answers := rest\<rparr>)"
    by (simp add: prompt_duplicate_action_def)
  with assms(1,2,3) show ?thesis
    by (simp add: publish_to_anytype_def io_bind_def io_return_def split: option.splits)
qed

lemma new_calls_append: "trace w' = trace w @ xs \<Longrightarrow> new_calls w w' = xs"
  by (simp add: new_calls_def)

text \<open>
  Claim C7.  Take an ingestion with a configured publisher whose detector returns exactly
  one candidate.  With the answers \<open>u\<close>, \<open>1\<close> the coordinator makes exactly one update
  call, on that candidate's object identifier, and no create call; without a PDF it uploads
  and attaches nothing, and with a PDF, once the update and the upload have succeeded, it
  makes exactly one upload and exactly one attach, on that same object identifier.  With the
  answer \<open>c\<close> it makes exactly one create call and no update call.
\<close>

theorem publish_one_candidate:
  assumes "service_publisher svc = Some pub"
    and "detect rt (case duplicate_detector svc of None \<Rightarrow> NoopDuplicateDetector
                    | Some d \<Rightarrow> d) r w = (Inr [c], w1)"
  shows
    "(answers w = [ustr ''u'', ustr ''1''] \<longrightarrow>
        (let new = new_calls w (snd (publish_to_anytype rt svc r bib pdf w));
             upd = UpdateObject (object_id c) (build_fields (settings pub) r bib)
         in filter is_update new = [upd] \<and> filter is_create new = [] \<and>
            (pdf = None \<longrightarrow> filter is_upload new = [] \<and> filter is_attach new = []) \<and>
            (\<forall>path d fid. pdf = Some path \<and>
                update_object (client pub) (trace w1) (object_id c)
                  (build_fields (settings pub) r bib) = Inr d \<and>
                upload_file (client pub) (trace w1 @ [upd]) path = Inr fid \<longrightarrow>
                filter is_upload new = [UploadFile path] \<and>
                filter is_attach new = [AttachFileToObject (object_id c) fid]))) \<and>
     (answers w = [ustr ''c''] \<longrightarrow>
        (let new = new_calls w (snd (publish_to_anytype rt svc r bib pdf w))
         in filter is_create new =
              [CreateObject
                 (if entry_type r = ustr ''book'' then anytype_object_type_book (settings pub)
                  else anytype_object_type_article (settings pub))
                 (title r) (build_fields (settings pub) r bib)] \<and>
            filter is_update new = []))"
proof (intro conjI impI)
  from detect_run [OF assms(2)] obtain ss where t1: "trace w1 = trace w @ ss"
    and ss: "list_all is_search ss"
    by blast
  note f = searches_filtered [OF ss]
  {
    assume a: "answers w = [ustr ''u'', ustr ''1'']"
    let ?upd = "UpdateObject (object_id c) (build_fields (settings pub) r bib)"
    let ?w' = "snd (publish_to_anytype rt svc r bib pdf w)"
    let ?tail = "case pdf of
        None \<Rightarrow> []
      | Some path \<Rightarrow>
          (case update_object (client pub) (trace w1) (object_id c)
                  (build_fields (settings pub) r bib) of
             Inl e \<Rightarrow> []
           | Inr d \<Rightarrow>
               UploadFile path #
               (case upload_file (client pub) (trace w1 @ [?upd]) path of
                  Inl e \<Rightarrow> []
                | Inr fid \<Rightarrow> [AttachFileToObject (object_id c) fid]))"
    from a have p: "prompt_loop rt [c] (answers w) = (Inr (ustr ''use_existing'', Some c), [])"
      by (simp only: prompt_loop_u1)
    from publish_after_prompt [OF assms(1) assms(2) _ p, of bib pdf]
    have "publish_to_anytype rt svc r bib pdf w = update_existing svc c r bib pdf (w1\<lparr>answers := []\<rparr>)"
      by (simp add: action_names)
    with update_existing_trace [OF assms(1), of c r bib pdf "w1\<lparr>answers := []\<rparr>"] t1
    have "trace ?w' = trace w @ (ss @ [?upd] @ ?tail)"
      by (simp cong: option.case_cong sum.case_cong)
    then have n: "new_calls w ?w' = ss @ [?upd] @ ?tail" by (rule new_calls_append)
    show "let new = new_calls w ?w'; upd = ?upd
         in filter is_update new = [upd] \<and> filter is_create new = [] \<and>
            (pdf = None \<longrightarrow> filter is_upload new = [] \<and> filter is_attach new = []) \<and>
            (\<forall>path d fid. pdf = Some path \<and>
                update_object (client pub) (trace w1) (object_id c)
                  (build_fields (settings pub) r bib) = Inr d \<and>
                upload_file (client pub) (trace w1 @ [upd]) path = Inr fid \<longrightarrow>
                filter is_upload new = [UploadFile path] \<and>
                filter is_attach new = [AttachFileToObject (object_id c) fid])"
      unfolding Let_def n using f
      by (auto split: option.splits sum.splits)
  next
    assume a: "answers w = [ustr ''c'']"
    let ?w' = "snd (publish_to_anytype rt svc r bib pdf w)"
    let ?cr = "CreateObject
                 (if entry_type r = ustr ''book'' then anytype_object_type_book (settings pub)
                  else anytype_object_type_article (settings pub))
                 (title r) (build_fields (settings pub) r bib)"
    from a have p: "prompt_loop rt [c] (answers w) = (Inr (ustr ''create'', None), [])"
      by (simp only: prompt_loop_c)
    from publish_after_prompt [OF assms(1) assms(2) _ p, of bib pdf]
    have e: "publish_to_anytype rt svc r bib pdf w = create_new rt pub r bib pdf (w1\<lparr>answers := []\<rparr>)"
      by (simp add: action_names)
    from create_new_trace [of rt pub r bib pdf "w1\<lparr>answers := []\<rparr>"] obtain tail where
      t: "trace (snd (create_new rt pub r bib pdf (w1\<lparr>answers := []\<rparr>))) = trace w1 @ ?cr # tail"
      and l: "list_all (\<lambda>c. is_upload c \<or> is_attach c) tail"
      by auto
    from t e t1 have "trace ?w' = trace w @ (ss @ ?cr # tail)" by simp
    then have n: "new_calls w ?w' = ss @ ?cr # tail" by (rule new_calls_append)
    from l have "filter is_create tail = []" "filter is_update tail = []"
      using upload_attach_kind by (auto simp: filter_empty_conv list_all_iff)
    then show "let new = new_calls w ?w'
         in filter is_create new = [?cr] \<and> filter is_update new = []"
      unfolding Let_def n using f by simp
  }
qed


lemma prompt_loop_abort_first:
  assumes "is_abort_answer rt x"
  shows "prompt_loop rt cands (x # rest) = (Inr (ustr ''abort'', None), rest)"
  using assms by (simp add: is_abort_answer_def choice_of_def Let_def)

lemma use_names:
  "ustr ''u'' \<noteq> ustr ''a''" "ustr ''u'' \<noteq> ustr ''abort''" "ustr ''u'' \<noteq> ustr ''c''"
  "ustr ''u'' \<noteq> ustr ''create''" "ustr ''use'' \<noteq> ustr ''a''" "ustr ''use'' \<noteq> ustr ''abort''"
  "ustr ''use'' \<noteq> ustr ''c''" "ustr ''use'' \<noteq> ustr ''create''"
  by (simp_all add: ustr_def)

lemma prompt_loop_reprompt:
  assumes "reprompt_round rt (length cands) rnd"
  shows "prompt_loop rt cands (rnd @ xs) = prompt_loop rt cands xs"
proof -
  from assms consider
    (one) x where "rnd = [x]"
      "choice_of rt x \<notin> {ustr ''a'', ustr ''abort'', ustr ''c'', ustr ''create'', ustr ''u'',
         ustr ''use''}"
    | (two) x y where "rnd = [x, y]" "choice_of rt x = ustr ''u'' \<or> choice_of rt x = ustr ''use''"
      "case int_of_str rt (str_strip rt y) of Inl e \<Rightarrow> e = ValueError
       | Inr index \<Rightarrow> \<not> (1 \<le> index \<and> index \<le> int (length cands))"
    by (auto simp: reprompt_round_def split: list.splits)
  then show ?thesis
  proof cases
    case one
    then show ?thesis by (simp add: choice_of_def Let_def)
  next
    case two
    from two(2) have n: "str_lower rt (str_strip rt x) \<noteq> ustr ''a''"
      "str_lower rt (str_strip rt x) \<noteq> ustr ''abort''"
      "str_lower rt (str_strip rt x) \<noteq> ustr ''c''"
      "str_lower rt (str_strip rt x) \<noteq> ustr ''create''"
      using use_names by (auto simp: choice_of_def)
    from two(2) have u: "str_lower rt (str_strip rt x) = ustr ''u'' \<or>
        str_lower rt (str_strip rt x) = ustr ''use''"
      by (simp add: choice_of_def)
    from two(3) show ?thesis
      unfolding two(1) using n u by (auto simp: Let_def split: sum.splits)
  qed
qed

lemma prompt_loop_rounds:
  assumes "\<forall>rnd\<in>set rounds. reprompt_round rt (length cands) rnd"
  shows "prompt_loop rt cands (concat rounds @ xs) = prompt_loop rt cands xs"
  using assms by (induction rounds) (simp_all add: prompt_loop_reprompt)

text \<open>
  Claim C8.  Take an ingestion with a configured publisher whose detector returns at least
  one candidate.  If the operator answers \<open>a\<close> or \<open>abort\<close> (after trimming and
  lower-casing, as the code reads it) at the decision prompt, be it the first prompt or one
  reached after any number of rounds that prompt again (an unrecognised answer, or \<open>use\<close>
  with an index that is not a number or out of range), \<open>publish_to_anytype\<close> returns
  normally and the only remote calls it has made are the detector's searches: no create, no
  update, no upload and no attach.
\<close>

theorem publish_abort:
  assumes "service_publisher svc = Some pub"
    and "detect rt (case duplicate_detector svc of None \<Rightarrow> NoopDuplicateDetector
                    | Some d \<Rightarrow> d) r w = (Inr cands, w1)"
    and "cands \<noteq> []"
    and "answers w = concat rounds @ x # rest"
    and "\<forall>rnd\<in>set rounds. reprompt_round rt (length cands) rnd"
    and "is_abort_answer rt x"
  shows "fst (publish_to_anytype rt svc r bib pdf w) = Inr () \<and>
    (let new = new_calls w (snd (publish_to_anytype rt svc r bib pdf w))
     in list_all is_search new \<and> filter is_create new = [] \<and> filter is_update new = [] \<and>
        filter is_upload new = [] \<and> filter is_attach new = [])"
proof -
  from detect_run [OF assms(2)] obtain ss where t1: "trace w1 = trace w @ ss"
    and ss: "list_all is_search ss"
    by blast
  from assms(4) prompt_loop_rounds [OF assms(5), of "x # rest"]
    prompt_loop_abort_first [OF assms(6), of cands rest]
  have p: "prompt_loop rt cands (answers w) = (Inr (ustr ''abort'', None), rest)" by simp
  from publish_after_prompt [OF assms(1) assms(2) assms(3) p, of bib pdf]
  have e: "publish_to_anytype rt svc r bib pdf w = (Inr (), w1\<lparr>answers := rest\<rparr>)" by simp
  with t1 have "trace (snd (publish_to_anytype rt svc r bib pdf w)) = trace w @ ss" by simp
  then have "new_calls w (snd (publish_to_anytype rt svc r bib pdf w)) = ss"
    by (rule new_calls_append)
  with e ss searches_filtered [OF ss] show ?thesis by (simp add: Let_def)
qed

lemma sample_detect:
  "detect sample_runtime
       (case duplicate_detector sample_service of None \<Rightarrow> NoopDuplicateDetector | Some d \<Rightarrow> d)
       build_record \<lparr> trace = [], answers = xs \<rparr> =
     (Inr [\<lparr> object_id = ustr ''existing'', cand_title = Some (ustr ''Existing''),
             cand_doi = Some (ustr ''10.1000/test''),
             cand_authors = [ustr ''Doe, Jane'', ustr ''Smith, John''] \<rparr>],
      \<lparr> trace = [SearchByProperty (ustr ''doi'') (ustr ''10.1000/test'') 5,
                  SearchByText (ustr ''doe smith'') 5],
         answers = xs \<rparr>)"
  by (simp add: sample_service_def detect_def sample_find_duplicates)


theorem publish_one_candidate_witness:
  "service_publisher sample_service = Some \<lparr> client = sample_client, settings = sample_settings \<rparr> \<and>
   filter is_update
     (new_calls \<lparr> trace = [], answers = [ustr ''u'', ustr ''1''] \<rparr>
        (snd (publish_to_anytype sample_runtime sample_service build_record (ustr ''bib'')
                (Some (ustr ''paper.pdf''))
                \<lparr> trace = [], answers = [ustr ''u'', ustr ''1''] \<rparr>)))
     = [UpdateObject (ustr ''existing'') (build_fields sample_settings build_record (ustr ''bib''))] \<and>
   filter is_create
     (new_calls \<lparr> trace = [], answers = [ustr ''u'', ustr ''1''] \<rparr>
        (snd (publish_to_anytype sample_runtime sample_service build_record (ustr ''bib'')
                (Some (ustr ''paper.pdf''))
                \<lparr> trace = [], answers = [ustr ''u'', ustr ''1''] \<rparr>))) = [] \<and>
   filter is_attach
     (new_calls \<lparr> trace = [], answers = [ustr ''u'', ustr ''1''] \<rparr>
        (snd (publish_to_anytype sample_runtime sample_service build_record (ustr ''bib'')
                (Some (ustr ''paper.pdf''))
                \<lparr> trace = [], answers = [ustr ''u'', ustr ''1''] \<rparr>)))
     = [AttachFileToObject (ustr ''existing'') (ustr ''file1'')] \<and>
   filter is_create
     (new_calls \<lparr> trace = [], answers = [ustr ''c''] \<rparr>
        (snd (publish_to_anytype sample_runtime sample_service build_record (ustr ''bib'')
                (Some (ustr ''paper.pdf'')) \<lparr> trace = [], answers = [ustr ''c''] \<rparr>)))
     = [CreateObject (ustr ''Article'') (ustr ''Understanding Quantum Fields'')
          (build_fields sample_settings build_record (ustr ''bib''))] \<and>
   filter is_update
     (new_calls \<lparr> trace = [], answers = [ustr ''c''] \<rparr>
        (snd (publish_to_anytype sample_runtime sample_service build_record (ustr ''bib'')
                (Some (ustr ''paper.pdf'')) \<lparr> trace = [], answers = [ustr ''c''] \<rparr>))) = []"
proof -
  have pub: "service_publisher sample_service =
      Some \<lparr> client = sample_client, settings = sample_settings \<rparr>"
    by (simp add: sample_service_def)
  have cl: "update_object sample_client = (\<lambda>tr oid flds. Inr [(ustr ''id'', JStr oid)])"
    "upload_file sample_client = (\<lambda>tr p. Inr (ustr ''file1''))"
    by (simp_all add: sample_client_def)
  have r: "entry_type build_record \<noteq> ustr ''book''"
    "title build_record = ustr ''Understanding Quantum Fields''"
    "anytype_object_type_article sample_settings = ustr ''Article''"
    by (simp_all add: build_record_def sample_settings_def ustr_def)
  note u = publish_one_candidate [OF pub sample_detect [of "[ustr ''u'', ustr ''1'']"],
      of "ustr ''bib''" "Some (ustr ''paper.pdf'')", THEN conjunct1]
  note c = publish_one_candidate [OF pub sample_detect [of "[ustr ''c'']"],
      of "ustr ''bib''" "Some (ustr ''paper.pdf'')", THEN conjunct2]
  from u cl have 1: "filter is_update
     (new_calls \<lparr> trace = [], answers = [ustr ''u'', ustr ''1''] \<rparr>
        (snd (publish_to_anytype sample_runtime sample_service build_record (ustr ''bib'')
                (Some (ustr ''paper.pdf''))
                \<lparr> trace = [], answers = [ustr ''u'', ustr ''1''] \<rparr>)))
     = [UpdateObject (ustr ''existing'') (build_fields sample_settings build_record (ustr ''bib''))] \<and>
   filter is_create
     (new_calls \<lparr> trace = [], answers = [ustr ''u'', ustr ''1''] \<rparr>
        (snd (publish_to_anytype sample_runtime sample_service build_record (ustr ''bib'')
                (Some (ustr ''paper.pdf''))
                \<lparr> trace = [], answers = [ustr ''u'', ustr ''1''] \<rparr>))) = [] \<and>
   filter is_attach
     (new_calls \<lparr> trace = [], answers = [ustr ''u'', ustr ''1''] \<rparr>
        (snd (publish_to_anytype sample_runtime sample_service build_record (ustr ''bib'')
                (Some (ustr ''paper.pdf''))
                \<lparr> trace = [], answers = [ustr ''u'', ustr ''1''] \<rparr>)))
     = [AttachFileToObject (ustr ''existing'') (ustr ''file1'')]"
    by (simp add: Let_def)
  from c r have 2: "filter is_create
     (new_calls \<lparr> trace = [], answers = [ustr ''c''] \<rparr>
        (snd (publish_to_anytype sample_runtime sample_service build_record (ustr ''bib'')
                (Some (ustr ''paper.pdf'')) \<lparr> trace = [], answers = [ustr ''c''] \<rparr>)))
     = [CreateObject (ustr ''Article'') (ustr ''Understanding Quantum Fields'')
          (build_fields sample_settings build_record (ustr ''bib''))] \<and>
   filter is_update
     (new_calls \<lparr> trace = [], answers = [ustr ''c''] \<rparr>
        (snd (publish_to_anytype sample_runtime sample_service build_record (ustr ''bib'')
                (Some (ustr ''paper.pdf'')) \<lparr> trace = [], answers = [ustr ''c''] \<rparr>))) = []"
    by (simp add: Let_def)
  from pub 1 2 show ?thesis by blast
qed

theorem publish_abort_witness:
  "service_publisher sample_service = Some \<lparr> client = sample_client, settings = sample_settings \<rparr> \<and>
   reprompt_round sample_runtime 1 [ustr ''x''] \<and>
   reprompt_round sample_runtime 1 [ustr ''u'', ustr ''9''] \<and>
   is_abort_answer sample_runtime (ustr '' Abort '') \<and>
   fst (publish_to_anytype sample_runtime sample_service build_record (ustr ''bib'')
          (Some (ustr ''paper.pdf''))
          \<lparr> trace = [], answers = [ustr ''x'', ustr ''u'', ustr ''9'', ustr '' Abort ''] \<rparr>)
     = Inr () \<and>
   list_all is_search
     (new_calls \<lparr> trace = [], answers = [ustr ''x'', ustr ''u'', ustr ''9'', ustr '' Abort ''] \<rparr>
        (snd (publish_to_anytype sample_runtime sample_service build_record (ustr ''bib'')
                (Some (ustr ''paper.pdf''))
                \<lparr> trace = [], answers = [ustr ''x'', ustr ''u'', ustr ''9'', ustr '' Abort ''] \<rparr>))) \<and>
   filter is_create
     (new_calls \<lparr> trace = [], answers = [ustr ''x'', ustr ''u'', ustr ''9'', ustr '' Abort ''] \<rparr>
        (snd (publish_to_anytype sample_runtime sample_service build_record (ustr ''bib'')
                (Some (ustr ''paper.pdf''))
                \<lparr> trace = [], answers = [ustr ''x'', ustr ''u'', ustr ''9'', ustr '' Abort ''] \<rparr>)))
     = []"
proof -
  let ?w = "\<lparr> trace = [], answers = [ustr ''x'', ustr ''u'', ustr ''9'', ustr '' Abort ''] \<rparr>"
  have pub: "service_publisher sample_service =
      Some \<lparr> client = sample_client, settings = sample_settings \<rparr>"
    by (simp add: sample_service_def)
  have r1: "reprompt_round sample_runtime 1 [ustr ''x'']" by code_simp
  have r2: "reprompt_round sample_runtime 1 [ustr ''u'', ustr ''9'']" by code_simp
  have a: "is_abort_answer sample_runtime (ustr '' Abort '')" by code_simp
  have rs: "\<forall>rnd\<in>set [[ustr ''x''], [ustr ''u'', ustr ''9'']].
      reprompt_round sample_runtime
        (length [\<lparr> object_id = ustr ''existing'', cand_title = Some (ustr ''Existing''),
             cand_doi = Some (ustr ''10.1000/test''),
             cand_authors = [ustr ''Doe, Jane'', ustr ''Smith, John''] \<rparr>]) rnd"
    using r1 r2 by simp
  have an: "answers ?w = concat [[ustr ''x''], [ustr ''u'', ustr ''9'']] @ ustr '' Abort '' # []"
    by simp
  have ne: "[\<lparr> object_id = ustr ''existing'', cand_title = Some (ustr ''Existing''),
             cand_doi = Some (ustr ''10.1000/test''),
             cand_authors = [ustr ''Doe, Jane'', ustr ''Smith, John''] \<rparr>] \<noteq> []"
    by simp
  note t = publish_abort [OF pub
      sample_detect [of "[ustr ''x'', ustr ''u'', ustr ''9'', ustr '' Abort '']"] ne an rs a,
      of "ustr ''bib''" "Some (ustr ''paper.pdf'')"]
  from t have "fst (publish_to_anytype sample_runtime sample_service build_record (ustr ''bib'')
          (Some (ustr ''paper.pdf'')) ?w) = Inr ()"
    and "list_all is_search
     (new_calls ?w (snd (publish_to_anytype sample_runtime sample_service build_record
        (ustr ''bib'') (Some (ustr ''paper.pdf'')) ?w)))"
    and "filter is_create
     (new_calls ?w (snd (publish_to_anytype sample_runtime sample_service build_record
        (ustr ''bib'') (Some (ustr ''paper.pdf'')) ?w))) = []"
    by (simp_all add: Let_def)
  with pub r1 r2 a show ?thesis by blast
qed

end
